theory Spec2Isabelle
  imports Main
begin

section \<open>Python text\<close>

text \<open>
  A Python \<open>str\<close> is a sequence of Unicode code points, and \<open>len\<close>, slicing and
  \<open>rfind\<close> count code points. The fixed answers of the composer contain the typographic
  quotes U+2019, U+201C and U+201D, so a string is modelled as a list of code points.
  \<open>asc\<close> reads an ASCII literal.
\<close>

type_synonym pystr = "nat list"

definition asc :: "string \<Rightarrow> pystr" where
  "asc s = map of_char s"

text \<open>
  \<open>str.isspace\<close> for one code point; \<open>strip\<close>, \<open>split\<close> and the pattern \<open>\s\<close> all use it.
\<close>

definition is_space :: "nat \<Rightarrow> bool" where
  "is_space c =
     ((9 \<le> c \<and> c \<le> 13) \<or> (28 \<le> c \<and> c \<le> 32) \<or> c = 133 \<or> c = 160 \<or> c = 5760
      \<or> (8192 \<le> c \<and> c \<le> 8202) \<or> c = 8232 \<or> c = 8233 \<or> c = 8239 \<or> c = 8287
      \<or> c = 12288)"

definition py_lstrip :: "pystr \<Rightarrow> pystr" where
  "py_lstrip s = dropWhile is_space s"

definition py_rstrip :: "pystr \<Rightarrow> pystr" where
  "py_rstrip s = rev (dropWhile is_space (rev s))"

definition py_strip :: "pystr \<Rightarrow> pystr" where
  "py_strip s = py_lstrip (py_rstrip s)"

text \<open>
  \<open>s.rfind(ch, start, end)\<close> for a one-character needle: the highest index in
  \<open>[start, min end (len s))\<close> that holds \<open>ch\<close>, or \<open>-1\<close>.
\<close>

definition rfind :: "pystr \<Rightarrow> nat \<Rightarrow> nat \<Rightarrow> nat \<Rightarrow> int" where
  "rfind s ch start end =
     (case filter (\<lambda>i. s ! i = ch) (rev [start ..< min end (length s)]) of
        [] \<Rightarrow> - 1
      | i # _ \<Rightarrow> int i)"

text \<open>\<open>x or d\<close> where \<open>x\<close> is the result of \<open>state.get(key)\<close> on a string field.\<close>

definition or_else :: "pystr option \<Rightarrow> pystr \<Rightarrow> pystr" where
  "or_else x d = (case x of None \<Rightarrow> d | Some s \<Rightarrow> if s = [] then d else s)"

section \<open>Note store (tools/notes.py)\<close>

text \<open>
  The replies of the tools are dictionaries; \<open>reply\<close> has one optional field for each key
  that any tool writes, \<open>None\<close> for an absent key.
\<close>

datatype py_val = PyInt int | PyOther pystr

record reply =
  ok :: "bool option"
  count :: "int option"
  note_texts :: "pystr list option"
  result :: "py_val option"
  error :: "pystr option"

definition no_keys :: reply where
  "no_keys = \<lparr>ok = None, count = None, note_texts = None, result = None, error = None\<rparr>"

text \<open>The module-level list \<open>_NOTES\<close> is the argument \<open>store\<close>, passed in and returned.\<close>

definition add_note :: "pystr \<Rightarrow> pystr list \<Rightarrow> reply \<times> pystr list" where
  "add_note text store =
     (let text' = py_strip text;
          store' = (if text' \<noteq> [] then store @ [text'] else store)
      in (no_keys\<lparr>ok := Some True, count := Some (int (length store'))\<rparr>, store'))"

definition list_notes :: "pystr list \<Rightarrow> reply" where
  "list_notes store =
     no_keys\<lparr>ok := Some True, count := Some (int (length store)), note_texts := Some store\<rparr>"

text \<open>A sequence of \<open>add_note\<close> calls, each on the store the previous one left.\<close>

fun add_calls :: "pystr list \<Rightarrow> pystr list \<Rightarrow> pystr list" where
  "add_calls [] store = store"
| "add_calls (text # texts) store = add_calls texts (snd (add_note text store))"

section \<open>Turn state (agent/graph.py)\<close>

datatype intent = NOTES | NOTES_LIST | CALC | SEARCH | ANSWER

record snippet =
  title :: "pystr option"
  summary :: "pystr option"

datatype tool_result = TList "snippet list" | TDict reply

text \<open>
  \<open>State\<close> is a \<open>TypedDict\<close> with \<open>total=False\<close>: every key may be absent. \<open>full_answer\<close>
  may be present with the value \<open>None\<close>, which is \<open>Some None\<close> here.
\<close>

record state =
  transcript :: "pystr option"
  intent :: "intent option"
  tool_result :: "tool_result option"
  draft_answer :: "pystr option"
  answer :: "pystr option"
  calc_status :: "int option"
  truncated :: "bool option"
  full_answer :: "pystr option option"
  continuation :: "pystr option"

definition empty_state :: state where
  "empty_state = \<lparr>transcript = None, intent = None, tool_result = None, draft_answer = None,
     answer = None, calc_status = None, truncated = None, full_answer = None,
     continuation = None\<rparr>"

section \<open>Verifier (agent/graph.py)\<close>

definition SPOKEN_MAX_LEN :: nat where
  "SPOKEN_MAX_LEN = 300"

text \<open>Lines 177 to 181: the last full stop, else the last \<open>!\<close>, else the last \<open>?\<close>.\<close>

definition sentence_cut :: "pystr \<Rightarrow> int" where
  "sentence_cut ans =
     (let cut = rfind ans 46 0 SPOKEN_MAX_LEN;
          cut = (if cut = - 1 then rfind ans 33 0 SPOKEN_MAX_LEN else cut);
          cut = (if cut = - 1 then rfind ans 63 0 SPOKEN_MAX_LEN else cut)
      in cut)"

text \<open>Lines 182 to 191: the spoken chunk of an answer that is over the limit.\<close>

definition spoken_chunk :: "pystr \<Rightarrow> pystr" where
  "spoken_chunk ans =
     (let cut = sentence_cut ans in
      if cut \<noteq> - 1 \<and> cut > 0 then py_strip (take (nat (cut + 1)) ans)
      else
        let space_cut = rfind ans 32 0 SPOKEN_MAX_LEN in
        if space_cut \<noteq> - 1 \<and> space_cut > 0 then py_strip (take (nat space_cut) ans)
        else py_rstrip (take SPOKEN_MAX_LEN ans))"

definition verifier :: "state \<Rightarrow> state" where
  "verifier st =
     (let ans = py_strip (or_else (draft_answer st) (or_else (answer st) []));
          updates = empty_state\<lparr>truncated := Some False, continuation := Some [],
                      full_answer := Some None\<rparr>
      in if ans = [] then updates\<lparr>answer := Some []\<rparr>
         else if length ans \<le> SPOKEN_MAX_LEN then updates\<lparr>answer := Some ans\<rparr>
         else
           let spoken = spoken_chunk ans;
               remainder = py_lstrip (drop (length spoken) ans)
           in updates\<lparr>full_answer := Some (Some ans), answer := Some spoken,
                continuation := Some remainder, truncated := Some True\<rparr>)"

section \<open>Text helpers of the regular expressions\<close>

text \<open>
  Python decides the classes \<open>\w\<close> and \<open>\d\<close> of a pattern on \<open>str\<close>, and \<open>str.lower\<close>, from
  the Unicode database, which is not code of the repository. On the ASCII range the
  classes are written out here. Above it they are read from the parameter \<open>U\<close>: which
  code points are alphanumeric (\<open>\w\<close> is these and the underscore), which are decimal
  digits (\<open>\d\<close>), and the lower-casing of a text that is not all ASCII, which is given
  for the whole text because it depends on the neighbours of a letter.
\<close>

record unicode_db =
  uni_alnum :: "nat \<Rightarrow> bool"
  uni_decimal :: "nat \<Rightarrow> bool"
  uni_lower :: "pystr \<Rightarrow> pystr"

definition is_digit :: "unicode_db \<Rightarrow> nat \<Rightarrow> bool" where
  "is_digit U c = (if c < 128 then 48 \<le> c \<and> c \<le> 57 else uni_decimal U c)"

definition is_az :: "nat \<Rightarrow> bool" where
  "is_az c = (97 \<le> c \<and> c \<le> 122)"

definition is_word :: "unicode_db \<Rightarrow> nat \<Rightarrow> bool" where
  "is_word U c =
     (if c < 128 then (48 \<le> c \<and> c \<le> 57) \<or> is_az c \<or> (65 \<le> c \<and> c \<le> 90) \<or> c = 95
      else uni_alnum U c)"

definition py_lower :: "unicode_db \<Rightarrow> pystr \<Rightarrow> pystr" where
  "py_lower U s =
     (if list_all (\<lambda>c. c < 128) s then map (\<lambda>c. if 65 \<le> c \<and> c \<le> 90 then c + 32 else c) s
      else uni_lower U s)"

text \<open>
  A table for the closed statements below. Their texts are ASCII, where no function
  consults the table; this one knows no code point above 127.
\<close>

definition ascii_table :: unicode_db where
  "ascii_table = \<lparr>uni_alnum = (\<lambda>c. False), uni_decimal = (\<lambda>c. False), uni_lower = (\<lambda>s. s)\<rparr>"

text \<open>\<open>sep.join(xs)\<close> and \<open>s.split()\<close>.\<close>

fun py_join :: "pystr \<Rightarrow> pystr list \<Rightarrow> pystr" where
  "py_join sep [] = []"
| "py_join sep [x] = x"
| "py_join sep (x # y # ys) = x @ sep @ py_join sep (y # ys)"

fun split_acc :: "pystr \<Rightarrow> pystr \<Rightarrow> pystr list" where
  "split_acc w [] = (if w = [] then [] else [w])"
| "split_acc w (c # cs) =
     (if is_space c then (if w = [] then split_acc [] cs else w # split_acc [] cs)
      else split_acc (w @ [c]) cs)"

definition py_split :: "pystr \<Rightarrow> pystr list" where
  "py_split s = split_acc [] s"

text \<open>\<open>str(n)\<close> for an integer.\<close>

fun digits_of :: "nat \<Rightarrow> pystr" where
  "digits_of n = (if n < 10 then [48 + n] else digits_of (n div 10) @ [48 + n mod 10])"

declare digits_of.simps [simp del]

definition str_int :: "int \<Rightarrow> pystr" where
  "str_int i = (if i < 0 then 45 # digits_of (nat (- i)) else digits_of (nat i))"

text \<open>
  \<open>re.sub(r"C+", repl, s)\<close> for a character class \<open>C\<close>: every maximal run of characters of
  the class is replaced by \<open>repl\<close>.
\<close>

function sub_runs :: "(nat \<Rightarrow> bool) \<Rightarrow> pystr \<Rightarrow> pystr \<Rightarrow> pystr" where
  "sub_runs C repl [] = []"
| "sub_runs C repl (c # cs) =
     (if C c then repl @ sub_runs C repl (dropWhile C cs) else c # sub_runs C repl cs)"
  by pat_completeness auto
termination
  by (relation "measure (\<lambda>(C, repl, s). length s)")
     (auto simp: less_Suc_eq_le length_dropWhile_le)

text \<open>
  The word boundary \<open>\b\<close> between the character before a position and the one after it
  (\<open>None\<close> at either end of the text).
\<close>

definition word_opt :: "unicode_db \<Rightarrow> nat option \<Rightarrow> bool" where
  "word_opt U x = (case x of None \<Rightarrow> False | Some c \<Rightarrow> is_word U c)"

definition boundary :: "unicode_db \<Rightarrow> nat option \<Rightarrow> nat option \<Rightarrow> bool" where
  "boundary U p n = (word_opt U p \<noteq> word_opt U n)"

definition head_opt :: "pystr \<Rightarrow> nat option" where
  "head_opt s = (case s of [] \<Rightarrow> None | c # _ \<Rightarrow> Some c)"

text \<open>
  The patterns of the form \<open>\b(a1|a2|...)\b\<close> with literal, non-empty alternatives.
  \<open>match_alts\<close> is the group and the closing \<open>\b\<close> at one position: the alternatives are
  tried in order, and one that matches the text but is not followed by a boundary is given
  up for the next. \<open>match_here\<close> adds the opening \<open>\b\<close>.
\<close>

fun match_alts :: "unicode_db \<Rightarrow> pystr list \<Rightarrow> pystr \<Rightarrow> pystr option" where
  "match_alts U [] rest = None"
| "match_alts U (a # alts) rest =
     (if take (length a) rest = a
         \<and> boundary U (Some (last a)) (head_opt (drop (length a) rest))
      then Some a else match_alts U alts rest)"

definition match_here ::
  "unicode_db \<Rightarrow> pystr list \<Rightarrow> nat option \<Rightarrow> pystr \<Rightarrow> pystr option" where
  "match_here U alts prev rest =
     (if boundary U prev (head_opt rest) then match_alts U alts rest else None)"

text \<open>The leftmost match: its offset and the alternative that matched.\<close>

fun find_words ::
  "unicode_db \<Rightarrow> pystr list \<Rightarrow> nat option \<Rightarrow> pystr \<Rightarrow> (nat \<times> pystr) option" where
  "find_words U alts prev [] = None"
| "find_words U alts prev (c # cs) =
     (case match_here U alts prev (c # cs) of
        Some a \<Rightarrow> Some (0, a)
      | None \<Rightarrow> map_option (\<lambda>(i, a). (Suc i, a)) (find_words U alts (Some c) cs))"

text \<open>\<open>re.search(pattern, t)\<close> read as a truth value.\<close>

definition re_search_words :: "unicode_db \<Rightarrow> pystr list \<Rightarrow> pystr \<Rightarrow> bool" where
  "re_search_words U alts t = (find_words U alts None t \<noteq> None)"

text \<open>\<open>re.sub(pattern, repl, t, count=1)\<close>.\<close>

definition sub_words_first ::
  "unicode_db \<Rightarrow> pystr list \<Rightarrow> pystr \<Rightarrow> pystr \<Rightarrow> pystr" where
  "sub_words_first U alts repl t =
     (case find_words U alts None t of
        None \<Rightarrow> t
      | Some (i, a) \<Rightarrow> take i t @ repl @ drop (i + length a) t)"

text \<open>\<open>re.sub(pattern, repl, t)\<close>: every match, left to right, without overlap.\<close>

function sub_words_all ::
  "unicode_db \<Rightarrow> pystr list \<Rightarrow> pystr \<Rightarrow> nat option \<Rightarrow> pystr \<Rightarrow> pystr" where
  "sub_words_all U alts repl prev [] = []"
| "sub_words_all U alts repl prev (c # cs) =
     (case match_here U alts prev (c # cs) of
        Some a \<Rightarrow>
          repl @ sub_words_all U alts repl (Some (last (c # a))) (drop (length a - 1) cs)
      | None \<Rightarrow> c # sub_words_all U alts repl (Some c) cs)"
  by pat_completeness auto
termination
  by (relation "measure (\<lambda>(U, alts, repl, prev, s). length s)") auto

section \<open>Calculator (tools/calculator.py)\<close>

definition ALLOWED :: pystr where
  "ALLOWED = asc ''0123456789+-*/(). %''"

definition WORD_OPERATORS :: "(pystr \<times> pystr) list" where
  "WORD_OPERATORS =
     [(asc ''plus'', asc ''+''), (asc ''minus'', asc ''-''), (asc ''over'', asc ''/''),
      (asc ''divided by'', asc ''/''), (asc ''divide by'', asc ''/''),
      (asc ''times'', asc ''*''), (asc ''multiplied by'', asc ''*''),
      (asc ''multiply by'', asc ''*''), (asc ''modulo'', asc ''%''), (asc ''mod'', asc ''%''),
      (asc ''power of'', asc ''**''), (asc ''to the power of'', asc ''**''),
      (asc ''raised to'', asc ''**'')]"

definition NUM_WORDS :: "(pystr \<times> int) list" where
  "NUM_WORDS =
     [(asc ''zero'', 0), (asc ''one'', 1), (asc ''two'', 2), (asc ''three'', 3),
      (asc ''four'', 4), (asc ''five'', 5), (asc ''six'', 6), (asc ''seven'', 7),
      (asc ''eight'', 8), (asc ''nine'', 9), (asc ''ten'', 10), (asc ''eleven'', 11),
      (asc ''twelve'', 12), (asc ''thirteen'', 13), (asc ''fourteen'', 14),
      (asc ''fifteen'', 15), (asc ''sixteen'', 16), (asc ''seventeen'', 17),
      (asc ''eighteen'', 18), (asc ''nineteen'', 19), (asc ''twenty'', 20),
      (asc ''thirty'', 30), (asc ''forty'', 40), (asc ''fifty'', 50), (asc ''sixty'', 60),
      (asc ''seventy'', 70), (asc ''eighty'', 80), (asc ''ninety'', 90)]"

definition SCALE_WORDS :: "(pystr \<times> int) list" where
  "SCALE_WORDS = [(asc ''hundred'', 100), (asc ''thousand'', 1000), (asc ''million'', 1000000)]"

definition IGNORE_WORDS :: "pystr list" where
  "IGNORE_WORDS = [asc ''and'']"

definition ALL_NUMBER_WORDS :: "pystr list" where
  "ALL_NUMBER_WORDS = map fst NUM_WORDS @ map fst SCALE_WORDS @ IGNORE_WORDS"

text \<open>
  The loop of \<open>_words_sequence_to_int\<close> on the registers \<open>total\<close> (here \<open>total'\<close>) and \<open>current\<close>;
  \<open>None\<close> is the early \<open>return None\<close> on a word of no table.
\<close>

fun words_loop :: "int \<Rightarrow> int \<Rightarrow> pystr list \<Rightarrow> int option" where
  "words_loop total' current [] = Some (total' + current)"
| "words_loop total' current (word # words) =
     (if word \<in> set IGNORE_WORDS then words_loop total' current words
      else case map_of NUM_WORDS word of
        Some v \<Rightarrow> words_loop total' (current + v) words
      | None \<Rightarrow>
          (case map_of SCALE_WORDS word of
             Some scale \<Rightarrow>
               (let current = (if current = 0 then 1 else current);
                    current = current * scale
                in if scale \<ge> 1000 then words_loop (total' + current) 0 words
                   else words_loop total' current words)
           | None \<Rightarrow> None))"

text \<open>
  The same loop in the words of the specification, where a scale word multiplies
  \<open>current\<close> whatever it holds. It is compared with \<open>words_loop\<close> below.
\<close>

fun claimed_words_loop :: "int \<Rightarrow> int \<Rightarrow> pystr list \<Rightarrow> int option" where
  "claimed_words_loop total' current [] = Some (total' + current)"
| "claimed_words_loop total' current (word # words) =
     (if word \<in> set IGNORE_WORDS then claimed_words_loop total' current words
      else case map_of NUM_WORDS word of
        Some v \<Rightarrow> claimed_words_loop total' (current + v) words
      | None \<Rightarrow>
          (case map_of SCALE_WORDS word of
             Some scale \<Rightarrow>
               (if scale \<ge> 1000 then claimed_words_loop (total' + current * scale) 0 words
                else claimed_words_loop total' (current * scale) words)
           | None \<Rightarrow> None))"

definition words_sequence_to_int :: "pystr list \<Rightarrow> int option" where
  "words_sequence_to_int words = words_loop 0 0 words"

text \<open>Lines 88 to 94 and 96 to 101: a finished run of number words joins the result.\<close>

definition flush_seq :: "pystr list \<Rightarrow> pystr list \<Rightarrow> pystr list" where
  "flush_seq result' seq =
     (if seq \<noteq> [] then
        (case words_sequence_to_int seq of
           Some number \<Rightarrow> result' @ [str_int number]
         | None \<Rightarrow> result' @ seq)
      else result')"

fun convert_loop :: "pystr list \<Rightarrow> pystr list \<Rightarrow> pystr list \<Rightarrow> pystr list" where
  "convert_loop result' seq [] = flush_seq result' seq"
| "convert_loop result' seq (word # words) =
     (if word \<in> set ALL_NUMBER_WORDS then convert_loop result' (seq @ [word]) words
      else convert_loop (flush_seq result' seq @ [word]) [] words)"

definition convert_number_words :: "pystr \<Rightarrow> pystr" where
  "convert_number_words expr = py_join [32] (convert_loop [] [] (py_split expr))"

text \<open>The loop of lines 110 and 111 over \<open>_WORD_OPERATORS\<close>.\<close>

fun replace_operators ::
  "unicode_db \<Rightarrow> (pystr \<times> pystr) list \<Rightarrow> pystr \<Rightarrow> pystr" where
  "replace_operators U [] normalized = normalized"
| "replace_operators U ((pattern, symbol) # ops) normalized =
     replace_operators U ops
       (sub_words_all U [pattern] ([32] @ symbol @ [32]) None normalized)"

definition replace_word_operators :: "unicode_db \<Rightarrow> pystr \<Rightarrow> pystr" where
  "replace_word_operators U expr =
     (let normalized = py_lower U expr;
          normalized = map (\<lambda>c. if c = 45 then 32 else c) normalized;
          normalized = filter (\<lambda>c. c \<notin> set [63, 33, 44, 46, 39]) normalized;
          normalized = convert_number_words normalized;
          normalized = replace_operators U WORD_OPERATORS normalized;
          normalized = sub_runs is_az [32] normalized;
          normalized = sub_runs is_space [32] normalized
      in py_strip normalized)"

text \<open>
  Python's builtin \<open>eval\<close> is not code of the repository: \<open>calc\<close> takes it as the
  parameter \<open>ev\<close>, which gives the value of an expression or the text \<open>str(exc)\<close> of the
  exception it raises. A value that is not an integer is kept as the text \<open>str\<close> gives it.
\<close>

datatype eval_outcome = Returns py_val | Raises pystr

type_synonym evaluator = "pystr \<Rightarrow> eval_outcome"

definition calc :: "unicode_db \<Rightarrow> evaluator \<Rightarrow> pystr \<Rightarrow> reply \<times> int" where
  "calc U ev expression =
     (let expression = replace_word_operators U (py_strip expression) in
      if expression = [] \<or> \<not> list_all (\<lambda>c. c \<in> set ALLOWED) expression
      then (no_keys\<lparr>error := Some (asc ''invalid characters'')\<rparr>, 400)
      else
        (case ev expression of
           Returns res \<Rightarrow> (no_keys\<lparr>result := Some res\<rparr>, 200)
         | Raises msg \<Rightarrow> (no_keys\<lparr>error := Some msg\<rparr>, 400)))"

text \<open>
  A concrete evaluator for the statements below. It follows Python on sums, differences
  and products of decimal integer literals written without leading zeros, and reports
  every other expression with the text of Python's generic syntax error.
\<close>

datatype token = TNum nat | TPlus | TMinus | TStar | TOther

definition num_token :: "pystr \<Rightarrow> token list" where
  "num_token ds =
     (if ds = [] then []
      else if length ds > 1 \<and> hd ds = 48 then [TOther]
      else [TNum (foldl (\<lambda>n d. 10 * n + (d - 48)) 0 ds)])"

definition op_token :: "nat \<Rightarrow> token list" where
  "op_token c =
     (if c = 32 then [] else if c = 43 then [TPlus] else if c = 45 then [TMinus]
      else if c = 42 then [TStar] else [TOther])"

fun tokenize :: "pystr \<Rightarrow> pystr \<Rightarrow> token list" where
  "tokenize ds [] = num_token ds"
| "tokenize ds (c # cs) =
     (if 48 \<le> c \<and> c \<le> 57 then tokenize (ds @ [c]) cs
      else num_token ds @ op_token c @ tokenize [] cs)"

fun eval_tokens :: "int \<Rightarrow> int \<Rightarrow> token list \<Rightarrow> int option" where
  "eval_tokens s p [] = Some (s + p)"
| "eval_tokens s p (TStar # TNum n # rest) = eval_tokens s (p * int n) rest"
| "eval_tokens s p (TPlus # TNum n # rest) = eval_tokens (s + p) (int n) rest"
| "eval_tokens s p (TMinus # TNum n # rest) = eval_tokens (s + p) (- int n) rest"
| "eval_tokens s p rest = None"

definition int_eval :: evaluator where
  "int_eval e =
     (case tokenize [] e of
        TNum n # rest \<Rightarrow>
          (case eval_tokens 0 (int n) rest of
             Some v \<Rightarrow> Returns (PyInt v)
           | None \<Rightarrow> Raises (asc ''invalid syntax (<string>, line 1)''))
      | _ \<Rightarrow> Raises (asc ''invalid syntax (<string>, line 1)''))"

section \<open>Router (agent/graph.py)\<close>

definition normalize_str :: "unicode_db \<Rightarrow> pystr \<Rightarrow> pystr" where
  "normalize_str U text = sub_runs is_space [32] (py_lower U (py_strip text))"

definition NEGATIONS :: "pystr list" where
  "NEGATIONS = [asc ''don't'', asc ''do not'', asc ''do n't'', asc ''never'', asc ''no'']"

definition NOTE_TRIGGERS :: "pystr list" where
  "NOTE_TRIGGERS =
     [asc ''add note'', asc ''add a note'', asc ''take a note'', asc ''remember to'',
      asc ''note to'', asc ''note:'', asc ''remind me to'']"

definition LIST_TRIGGERS :: "pystr list" where
  "LIST_TRIGGERS =
     [asc ''list notes'', asc ''show notes'', asc ''read notes'', asc ''what notes'',
      asc ''my notes'']"

definition CALC_TRIGGERS :: "pystr list" where
  "CALC_TRIGGERS =
     [asc ''calculate'', asc ''what is'', asc ''what's'', asc ''how much is'',
      asc ''evaluate'', asc ''what about'', asc ''how about'']"

definition SEARCH_TRIGGERS :: "pystr list" where
  "SEARCH_TRIGGERS =
     [asc ''search'', asc ''search for'', asc ''find'', asc ''look up'', asc ''lookup'',
      asc ''look for'', asc ''tell me about'']"

text \<open>
  \<open>re.search(r"\b\d+\b", t)\<close>: at a boundary, some number of digits followed by a
  boundary.
\<close>

definition number_here :: "unicode_db \<Rightarrow> pystr \<Rightarrow> bool" where
  "number_here U rest =
     list_ex (\<lambda>k. list_all (is_digit U) (take k rest)
                \<and> boundary U (Some (rest ! (k - 1))) (head_opt (drop k rest)))
       [1 ..< Suc (length rest)]"

fun find_number :: "unicode_db \<Rightarrow> nat option \<Rightarrow> pystr \<Rightarrow> bool" where
  "find_number U prev [] = False"
| "find_number U prev (c # cs) =
     ((boundary U prev (Some c) \<and> number_here U (c # cs)) \<or> find_number U (Some c) cs)"

text \<open>\<open>re.search(r"[+\-*/%]|\*\*", t)\<close>.\<close>

definition has_operator :: "pystr \<Rightarrow> bool" where
  "has_operator t = list_ex (\<lambda>c. c \<in> set (asc ''+-*/%'')) t"

text \<open>Lines 35 to 63, on the normalised transcript \<open>t\<close>.\<close>

definition route :: "unicode_db \<Rightarrow> pystr \<Rightarrow> intent" where
  "route U t =
     (if t = [] then ANSWER
      else
        let negation = re_search_words U NEGATIONS t in
        if re_search_words U NOTE_TRIGGERS t \<and> \<not> negation then NOTES
        else if re_search_words U LIST_TRIGGERS t \<and> \<not> negation then NOTES_LIST
        else if (re_search_words U CALC_TRIGGERS t
                   \<or> find_number U None t \<and> has_operator t)
                \<and> \<not> negation then CALC
        else if re_search_words U SEARCH_TRIGGERS t \<and> \<not> negation then SEARCH
        else ANSWER)"

definition router :: "unicode_db \<Rightarrow> state \<Rightarrow> state" where
  "router U st =
     empty_state\<lparr>intent := Some (route U (normalize_str U (or_else (transcript st) [])))\<rparr>"

text \<open>
  What it means for a transcript to contain a phrase as whole words, in the words of the
  specification rather than of the code: the phrase occurs at some position of the text,
  with no word character directly before it and none directly after it. \<open>occurs_from\<close>
  scans the text with the character before the current position.
\<close>

fun occurs_from :: "unicode_db \<Rightarrow> pystr \<Rightarrow> nat option \<Rightarrow> pystr \<Rightarrow> bool" where
  "occurs_from U p prev [] = False"
| "occurs_from U p prev (c # cs) =
     ((\<not> word_opt U prev \<and> take (length p) (c # cs) = p
         \<and> \<not> word_opt U (head_opt (drop (length p) (c # cs))))
      \<or> occurs_from U p (Some c) cs)"

definition contains_phrase :: "unicode_db \<Rightarrow> pystr \<Rightarrow> pystr \<Rightarrow> bool" where
  "contains_phrase U p t = occurs_from U p None t"

section \<open>Dispatcher (agent/graph.py)\<close>

definition SEARCH_STRIP :: "pystr list" where
  "SEARCH_STRIP =
     [asc ''search for'', asc ''search'', asc ''look up'', asc ''lookup'', asc ''find'',
      asc ''look for'']"

definition NOTE_STRIP :: "pystr list" where
  "NOTE_STRIP =
     [asc ''add a note'', asc ''add note'', asc ''take a note'', asc ''remember to'',
      asc ''note to'', asc ''note:'', asc ''remind me to'']"

definition FILLERS :: "pystr list" where
  "FILLERS = [asc ''please'', asc ''for'', asc ''to'']"

text \<open>\<open>re.sub(r"^\b(please|for|to)\b\s*", "", q)\<close>: a match at the start of the text only.\<close>

definition strip_filler :: "unicode_db \<Rightarrow> pystr \<Rightarrow> pystr" where
  "strip_filler U q =
     (case match_here U FILLERS None q of
        Some a \<Rightarrow> dropWhile is_space (drop (length a) q)
      | None \<Rightarrow> q)"

text \<open>
  \<open>re.sub(r"[?]+$", "", expression)\<close>: \<open>$\<close> matches at the end of the text and before a
  newline that ends it.
\<close>

definition strip_qmarks :: "pystr \<Rightarrow> pystr" where
  "strip_qmarks s =
     (case rev s of
        [] \<Rightarrow> []
      | c # cs \<Rightarrow>
          if c = 63 then rev (dropWhile (\<lambda>x. x = 63) (c # cs))
          else if c = 10 \<and> cs \<noteq> [] \<and> hd cs = 63 then rev (c # dropWhile (\<lambda>x. x = 63) cs)
          else s)"

text \<open>
  \<open>wiki_summary\<close> fetches from the network; it is the parameter \<open>wiki\<close>. The note store
  is passed in and returned.
\<close>

definition tool_node ::
  "unicode_db \<Rightarrow> evaluator \<Rightarrow> (pystr \<Rightarrow> snippet list) \<Rightarrow> state \<Rightarrow> pystr list
     \<Rightarrow> state \<times> pystr list" where
  "tool_node U ev wiki st store =
     (let t = normalize_str U (or_else (transcript st) []);
          updates = empty_state\<lparr>tool_result := Some (TList [])\<rparr>
      in
      if intent st = Some SEARCH then
        (let q = sub_words_first U SEARCH_STRIP [] t;
             q = strip_filler U q;
             q = py_strip (sub_runs is_space [32] q)
         in (updates\<lparr>tool_result := Some (TList (if q \<noteq> [] then wiki q else []))\<rparr>, store))
      else if intent st = Some NOTES then
        (let payload = sub_words_first U NOTE_STRIP [] t;
             payload = py_strip (sub_runs is_space [32] payload)
         in if payload \<noteq> [] then
              (case add_note payload store of
                 (r, store') \<Rightarrow> (updates\<lparr>tool_result := Some (TDict r)\<rparr>, store'))
            else
              (updates\<lparr>tool_result := Some (TDict (no_keys\<lparr>ok := Some False,
                 count := Some 0\<rparr>))\<rparr>, store))
      else if intent st = Some NOTES_LIST then
        (updates\<lparr>tool_result := Some (TDict (list_notes store))\<rparr>, store)
      else if intent st = Some CALC then
        (let expression = sub_words_first U CALC_TRIGGERS [] t;
             expression = strip_qmarks expression;
             expression = py_strip (sub_runs is_space [32] expression);
             expression = (if expression = [] then t else expression)
         in case calc U ev expression of
              (res, code) \<Rightarrow>
                (updates\<lparr>tool_result := Some (TDict res), calc_status := Some code\<rparr>, store))
      else (updates, store))"

section \<open>Composer (agent/graph.py)\<close>

text \<open>
  \<open>state.get("tool_result") or {}\<close> followed by \<open>.get\<close>, and
  \<open>state.get("tool_result") or []\<close> followed by slicing: \<open>None\<close> when the value has the
  other shape and is not empty, where Python raises.
\<close>

definition dict_or_empty :: "tool_result option \<Rightarrow> reply option" where
  "dict_or_empty x =
     (case x of
        None \<Rightarrow> Some no_keys
      | Some (TList l) \<Rightarrow> (if l = [] then Some no_keys else None)
      | Some (TDict r) \<Rightarrow> Some r)"

definition list_or_empty :: "tool_result option \<Rightarrow> snippet list option" where
  "list_or_empty x =
     (case x of
        None \<Rightarrow> Some []
      | Some (TList l) \<Rightarrow> Some l
      | Some (TDict r) \<Rightarrow> (if r = no_keys then Some [] else None))"

definition str_val :: "py_val \<Rightarrow> pystr" where
  "str_val v = (case v of PyInt i \<Rightarrow> str_int i | PyOther s \<Rightarrow> s)"

text \<open>Lines 108 to 112.\<close>

definition snippet_line :: "snippet \<Rightarrow> pystr" where
  "snippet_line s =
     (let title' = (case title s of None \<Rightarrow> asc ''(no title)'' | Some x \<Rightarrow> x);
          summary' = map (\<lambda>c. if c = 10 then 32 else c) (or_else (summary s) []);
          summary' = (if length summary' > 400 then py_rstrip (take 397 summary') @ asc ''...''
                      else summary')
      in title' @ asc '': '' @ summary')"

text \<open>Line 133, for the pair that \<open>enumerate\<close> gives.\<close>

definition note_line :: "int \<times> pystr \<Rightarrow> pystr" where
  "note_line p = asc ''Note '' @ str_int (fst p) @ asc '': '' @ snd p @ asc ''.''"

text \<open>
  The composer; \<open>None\<close> when it raises. The code points 8217, 8220 and 8221 are the
  typographic apostrophe and quotes of the source text.
\<close>

definition answerer :: "state \<Rightarrow> state option" where
  "answerer st =
     (if intent st = Some SEARCH then
        (case list_or_empty (tool_result st) of
           None \<Rightarrow> None
         | Some snippets \<Rightarrow>
             Some (empty_state\<lparr>draft_answer := Some
               (if snippets = [] then
                  asc ''I couldn'' @ [8217]
                    @ asc ''t find anything solid on that topic. Try rephrasing it for me.''
                else
                  asc ''Here'' @ [8217] @ asc ''s what I found.'' @ [10]
                    @ py_join [10] (map snippet_line (take 2 snippets)))\<rparr>))
      else if intent st = Some NOTES then
        (case dict_or_empty (tool_result st) of
           None \<Rightarrow> None
         | Some r \<Rightarrow>
             Some (empty_state\<lparr>draft_answer := Some
               (if ok r = Some True then
                  (let count' = (case count r of None \<Rightarrow> 0 | Some n \<Rightarrow> n);
                       plural = (if count' = 1 then asc ''note'' else asc ''notes'')
                   in asc ''Got it. I'' @ [8217] @ asc ''ll remember that. You now have ''
                        @ str_int count' @ [32] @ plural @ asc ''.'')
                else asc ''I couldn'' @ [8217] @ asc ''t save that note. Please try again.'')\<rparr>))
      else if intent st = Some NOTES_LIST then
        (case dict_or_empty (tool_result st) of
           None \<Rightarrow> None
         | Some r \<Rightarrow>
             (let notes = (case note_texts r of None \<Rightarrow> [] | Some ns \<Rightarrow> ns);
                  count' = (case count r of None \<Rightarrow> int (length notes) | Some n \<Rightarrow> n)
              in Some (empty_state\<lparr>draft_answer := Some
                   (if notes = [] then
                      asc ''You don'' @ [8217]
                        @ asc ''t have any notes yet. Just ask me to remember something.''
                    else
                      (let lines = map note_line (zip (map int [1 ..< 6]) (take 5 notes));
                           remaining = count' - int (length lines);
                           tail = (if remaining > 0 then
                                     asc '' I'' @ [8217] @ asc ''m tracking '' @ str_int remaining
                                       @ asc '' more.''
                                   else [])
                       in asc ''Here'' @ [8217] @ asc ''s what you asked me to remember. ''
                            @ py_join [32] lines @ tail))\<rparr>)))
      else if intent st = Some CALC then
        (case dict_or_empty (tool_result st) of
           None \<Rightarrow> None
         | Some tr \<Rightarrow>
             Some (empty_state\<lparr>draft_answer := Some
               (case (if calc_status st = Some 200 then result tr else None) of
                  Some v \<Rightarrow> asc ''The answer is '' @ str_val v @ asc ''.''
                | None \<Rightarrow>
                    (let err = or_else (error tr)
                                 (asc ''invalid expression or unsupported characters'')
                     in asc ''I couldn'' @ [8217] @ asc ''t work that out because '' @ err
                          @ asc ''.''))\<rparr>))
      else
        (let raw = or_else (transcript st) [];
             clean = py_strip raw
         in Some (empty_state\<lparr>draft_answer := Some
              (if clean \<noteq> [] then asc ''You said '' @ [8220] @ clean @ asc ''.'' @ [8221]
               else asc ''I didn'' @ [8217] @ asc ''t catch that.'')\<rparr>)))"

section \<open>The graph (agent/graph.py, build_graph)\<close>

text \<open>
  \<open>build_graph\<close> hands four nodes, an entry point and five edges to the \<open>StateGraph\<close> of
  the LangGraph library; \<open>END\<close> is \<open>None\<close> here.
\<close>

datatype node = detect_intent | dispatch_tool | compose_answer | verify_answer

definition nodes :: "node list" where
  "nodes = [detect_intent, dispatch_tool, compose_answer, verify_answer]"

definition entry_point :: node where
  "entry_point = detect_intent"

definition edges :: "(node \<times> node option) list" where
  "edges =
     [(detect_intent, Some dispatch_tool), (detect_intent, Some compose_answer),
      (dispatch_tool, Some compose_answer), (compose_answer, Some verify_answer),
      (verify_answer, None)]"

text \<open>
  The library is not code of the repository; its run of a compiled graph is modelled by
  the rule it documents. A run is a sequence of steps. The first step runs the entry
  point. A node runs in a step when a node with an edge to it ran in the step before; all
  nodes of a step read the state that the step before left, and their updates are written
  together when they have returned. Two nodes of one step that write the same key make the
  run fail. The run ends when no node is triggered, and fails when it takes more steps
  than the recursion limit, 25 unless the caller changes it.
\<close>

definition triggered :: "node list \<Rightarrow> node list" where
  "triggered earlier = filter (\<lambda>n. list_ex (\<lambda>m. (m, Some n) \<in> set edges) earlier) nodes"

fun supersteps :: "nat \<Rightarrow> node list \<Rightarrow> node list list option" where
  "supersteps limit active =
     (if active = [] then Some []
      else if limit = 0 then None
      else map_option (\<lambda>rest. active # rest) (supersteps (limit - 1) (triggered active)))"

declare supersteps.simps [simp del]

definition run_node ::
  "unicode_db \<Rightarrow> evaluator \<Rightarrow> (pystr \<Rightarrow> snippet list)
     \<Rightarrow> node \<Rightarrow> state \<Rightarrow> pystr list
     \<Rightarrow> (state \<times> pystr list) option" where
  "run_node U ev wiki n st store =
     (case n of
        detect_intent \<Rightarrow> Some (router U st, store)
      | dispatch_tool \<Rightarrow> Some (tool_node U ev wiki st store)
      | compose_answer \<Rightarrow> map_option (\<lambda>u. (u, store)) (answerer st)
      | verify_answer \<Rightarrow> Some (verifier st, store))"

definition write_key :: "'a option \<Rightarrow> 'a option \<Rightarrow> 'a option" where
  "write_key old new = (case new of None \<Rightarrow> old | Some v \<Rightarrow> Some v)"

definition apply_updates :: "state \<Rightarrow> state \<Rightarrow> state" where
  "apply_updates st u =
     \<lparr>transcript = write_key (transcript st) (transcript u),
      intent = write_key (intent st) (intent u),
      tool_result = write_key (tool_result st) (tool_result u),
      draft_answer = write_key (draft_answer st) (draft_answer u),
      answer = write_key (answer st) (answer u),
      calc_status = write_key (calc_status st) (calc_status u),
      truncated = write_key (truncated st) (truncated u),
      full_answer = write_key (full_answer st) (full_answer u),
      continuation = write_key (continuation st) (continuation u)\<rparr>"

definition keys_of :: "state \<Rightarrow> bool list" where
  "keys_of u =
     [transcript u \<noteq> None, intent u \<noteq> None, tool_result u \<noteq> None, draft_answer u \<noteq> None,
      answer u \<noteq> None, calc_status u \<noteq> None, truncated u \<noteq> None, full_answer u \<noteq> None,
      continuation u \<noteq> None]"

definition conflict :: "state \<Rightarrow> state \<Rightarrow> bool" where
  "conflict u v = list_ex (\<lambda>p. fst p \<and> snd p) (zip (keys_of u) (keys_of v))"

text \<open>One step: the merged updates of its nodes, and the note store they leave.\<close>

fun run_step ::
  "unicode_db \<Rightarrow> evaluator \<Rightarrow> (pystr \<Rightarrow> snippet list)
     \<Rightarrow> node list \<Rightarrow> state \<Rightarrow> pystr list
     \<Rightarrow> (state \<times> pystr list) option" where
  "run_step U ev wiki [] st store = Some (empty_state, store)"
| "run_step U ev wiki (n # ns) st store =
     (case run_node U ev wiki n st store of
        None \<Rightarrow> None
      | Some (u, store') \<Rightarrow>
          (case run_step U ev wiki ns st store' of
             None \<Rightarrow> None
           | Some (us, store'') \<Rightarrow>
               if conflict u us then None else Some (apply_updates u us, store'')))"

fun run_graph ::
  "unicode_db \<Rightarrow> evaluator \<Rightarrow> (pystr \<Rightarrow> snippet list)
     \<Rightarrow> nat \<Rightarrow> node list \<Rightarrow> state \<Rightarrow> pystr list
     \<Rightarrow> (state \<times> pystr list) option" where
  "run_graph U ev wiki limit active st store =
     (if active = [] then Some (st, store)
      else if limit = 0 then None
      else
        (case run_step U ev wiki active st store of
           None \<Rightarrow> None
         | Some (u, store') \<Rightarrow>
             run_graph U ev wiki (limit - 1) (triggered active) (apply_updates st u) store'))"

declare run_graph.simps [simp del]

text \<open>\<open>graph.invoke({"transcript": text})\<close> on the compiled graph.\<close>

definition invoke ::
  "unicode_db \<Rightarrow> evaluator \<Rightarrow> (pystr \<Rightarrow> snippet list) \<Rightarrow> pystr \<Rightarrow> pystr list
     \<Rightarrow> (state \<times> pystr list) option" where
  "invoke U ev wiki text store =
     run_graph U ev wiki 25 [entry_point] (empty_state\<lparr>transcript := Some text\<rparr>) store"

section \<open>Properties of the note store\<close>

lemma add_calls_append:
  "add_calls texts store = store @ filter (\<lambda>t. t \<noteq> []) (map py_strip texts)"
  by (induction texts arbitrary: store) (simp_all add: add_note_def Let_def)

text \<open>
  Claim C5. After any sequence of \<open>add_note\<close> calls on an empty store, \<open>list_notes\<close>
  reports as count the number of calls whose text is non-empty once stripped, and as
  notes exactly those stripped texts, in call order.
\<close>

theorem list_notes_after_add_calls:
  "count (list_notes (add_calls texts [])) =
     Some (int (length (filter (\<lambda>t. py_strip t \<noteq> []) texts)))
   \<and> note_texts (list_notes (add_calls texts [])) =
     Some (filter (\<lambda>t. t \<noteq> []) (map py_strip texts))"
proof -
  have "length (filter (\<lambda>t. t \<noteq> []) (map py_strip texts)) =
        length (filter (\<lambda>t. py_strip t \<noteq> []) texts)"
    by (induction texts) simp_all
  then show ?thesis
    by (simp add: list_notes_def no_keys_def add_calls_append)
qed


section \<open>Properties of the verifier\<close>

lemma py_rstrip_decomp:
  "\<exists>ws. xs = py_rstrip xs @ ws \<and> (\<forall>c\<in>set ws. is_space c)"
proof -
  have "rev xs = takeWhile is_space (rev xs) @ dropWhile is_space (rev xs)"
    by simp
  then have "xs = rev (dropWhile is_space (rev xs)) @ rev (takeWhile is_space (rev xs))"
    by (metis rev_append rev_rev_ident)
  moreover have "\<forall>c\<in>set (rev (takeWhile is_space (rev xs))). is_space c"
    by (auto dest: set_takeWhileD)
  ultimately show ?thesis
    unfolding py_rstrip_def by blast
qed

lemma py_rstrip_keeps_head:
  assumes "xs \<noteq> []" "\<not> is_space (hd xs)"
  shows "py_rstrip xs \<noteq> [] \<and> hd (py_rstrip xs) = hd xs"
proof -
  obtain ws where ws: "xs = py_rstrip xs @ ws" "\<forall>c\<in>set ws. is_space c"
    using py_rstrip_decomp by blast
  have ne: "py_rstrip xs \<noteq> []"
  proof
    assume "py_rstrip xs = []"
    with ws have "xs = ws" by simp
    with ws(2) assms show False by (cases xs) auto
  qed
  then have "hd xs = hd (py_rstrip xs)"
    using ws(1) by (metis hd_append2)
  with ne show ?thesis by simp
qed

lemma py_strip_headed:
  assumes "xs \<noteq> []" "\<not> is_space (hd xs)"
  shows "py_strip xs = py_rstrip xs"
proof -
  from py_rstrip_keeps_head [OF assms]
  obtain y ys where "py_rstrip xs = y # ys" "\<not> is_space y"
    using assms(2) by (cases "py_rstrip xs") auto
  then show ?thesis
    by (simp add: py_strip_def py_lstrip_def)
qed

lemma py_rstrip_last:
  "py_rstrip xs \<noteq> [] \<Longrightarrow> \<not> is_space (last (py_rstrip xs))"
  unfolding py_rstrip_def
  by (simp add: last_rev hd_dropWhile)

lemma py_strip_hd:
  "py_strip xs \<noteq> [] \<Longrightarrow> \<not> is_space (hd (py_strip xs))"
  unfolding py_strip_def py_lstrip_def by (rule hd_dropWhile)

lemma py_strip_last:
  assumes "py_strip xs \<noteq> []"
  shows "\<not> is_space (last (py_strip xs))"
proof -
  have ne: "py_rstrip xs \<noteq> []"
    using assms by (auto simp: py_strip_def py_lstrip_def)
  have "py_rstrip xs = takeWhile is_space (py_rstrip xs) @ py_strip xs"
    by (simp add: py_strip_def py_lstrip_def)
  then have "last (py_rstrip xs) = last (py_strip xs)"
    using assms by (metis last_appendR)
  with py_rstrip_last [OF ne] show ?thesis by simp
qed

lemma py_strip_length: "length (py_strip xs) \<le> length xs"
proof -
  have "length (py_strip xs) \<le> length (py_rstrip xs)"
    by (simp add: py_strip_def py_lstrip_def length_dropWhile_le)
  also have "\<dots> \<le> length xs"
    by (simp add: py_rstrip_def) (metis length_dropWhile_le length_rev)
  finally show ?thesis .
qed

lemma rfind_range:
  "rfind s ch 0 e = - 1 \<or> (0 \<le> rfind s ch 0 e \<and> rfind s ch 0 e < int e)"
proof (cases "filter (\<lambda>i. s ! i = ch) (rev [0 ..< min e (length s)])")
  case Nil
  then show ?thesis by (simp add: rfind_def)
next
  case (Cons i js)
  then have "i \<in> set (filter (\<lambda>i. s ! i = ch) (rev [0 ..< min e (length s)]))"
    by simp
  then have "i < e" by simp
  with Cons show ?thesis by (simp add: rfind_def)
qed

lemma spoken_chunk_shape:
  assumes "ans \<noteq> []" "\<not> is_space (hd ans)"
  shows "\<exists>n. 1 \<le> n \<and> n \<le> SPOKEN_MAX_LEN \<and> spoken_chunk ans = py_rstrip (take n ans)"
proof -
  have headed: "py_strip (take n ans) = py_rstrip (take n ans)" if "1 \<le> n" for n
  proof -
    from that assms have "take n ans \<noteq> []" "hd (take n ans) = hd ans"
      by (cases ans; cases n; simp)+
    with assms(2) show ?thesis by (simp add: py_strip_headed)
  qed
  have cutr: "sentence_cut ans = - 1 \<or> (0 \<le> sentence_cut ans \<and> sentence_cut ans < int SPOKEN_MAX_LEN)"
    using rfind_range [of ans 46 SPOKEN_MAX_LEN] rfind_range [of ans 33 SPOKEN_MAX_LEN]
      rfind_range [of ans 63 SPOKEN_MAX_LEN]
    by (auto simp: sentence_cut_def Let_def)
  show ?thesis
  proof (cases "sentence_cut ans \<noteq> - 1 \<and> sentence_cut ans > 0")
    case True
    let ?n = "nat (sentence_cut ans + 1)"
    from True cutr have "1 \<le> ?n" "?n \<le> SPOKEN_MAX_LEN" by auto
    moreover from True have "spoken_chunk ans = py_strip (take ?n ans)"
      by (simp add: spoken_chunk_def Let_def)
    ultimately show ?thesis using headed by metis
  next
    case False
    note nocut = this
    show ?thesis
    proof (cases "rfind ans 32 0 SPOKEN_MAX_LEN \<noteq> - 1 \<and> rfind ans 32 0 SPOKEN_MAX_LEN > 0")
      case True
      let ?n = "nat (rfind ans 32 0 SPOKEN_MAX_LEN)"
      from True rfind_range [of ans 32 SPOKEN_MAX_LEN]
      have "1 \<le> ?n" "?n \<le> SPOKEN_MAX_LEN" by auto
      moreover from True nocut have "spoken_chunk ans = py_strip (take ?n ans)"
        by (auto simp add: spoken_chunk_def Let_def)
      ultimately show ?thesis using headed by metis
    next
      case False
      with nocut have "spoken_chunk ans = py_rstrip (take SPOKEN_MAX_LEN ans)"
        by (auto simp add: spoken_chunk_def Let_def)
      then show ?thesis by (auto simp: SPOKEN_MAX_LEN_def)
    qed
  qed
qed

lemma spoken_chunk_split:
  assumes "ans \<noteq> []" "\<not> is_space (hd ans)" "\<not> is_space (last ans)"
    "SPOKEN_MAX_LEN < length ans"
  shows "\<exists>ws. (\<forall>c\<in>set ws. is_space c)
           \<and> ans = spoken_chunk ans @ ws @ py_lstrip (drop (length (spoken_chunk ans)) ans)
           \<and> py_lstrip (drop (length (spoken_chunk ans)) ans) \<noteq> []"
proof -
  obtain n where n: "1 \<le> n" "n \<le> SPOKEN_MAX_LEN" "spoken_chunk ans = py_rstrip (take n ans)"
    using spoken_chunk_shape [OF assms(1,2)] by blast
  obtain ws where ws: "take n ans = spoken_chunk ans @ ws"
    using py_rstrip_decomp [of "take n ans"] n(3) by auto
  let ?k = "length (spoken_chunk ans)"
  let ?rest = "drop ?k ans"
  have "ans = take n ans @ drop n ans" by simp
  then have pre: "ans = spoken_chunk ans @ (ws @ drop n ans)"
    using ws by simp
  then have take_k: "take ?k ans = spoken_chunk ans"
    by (metis append_eq_conv_conj)
  have klen: "?k < length ans"
  proof -
    have "?k \<le> length (take n ans)" using ws by (metis length_append le_add1)
    then show ?thesis using n(2) assms(4) by simp
  qed
  have rest_ne: "?rest \<noteq> []" using klen by simp
  have "last ?rest = last ans" using klen by simp
  then have "\<not> is_space (last ?rest)" using assms(3) by simp
  then have "\<exists>c\<in>set ?rest. \<not> is_space c"
    using rest_ne last_in_set by blast
  then have rem_ne: "py_lstrip ?rest \<noteq> []"
    by (simp add: py_lstrip_def)
  have "ans = take ?k ans @ ?rest" by simp
  also have "\<dots> = spoken_chunk ans @ takeWhile is_space ?rest @ py_lstrip ?rest"
    using take_k by (simp add: py_lstrip_def)
  finally have "ans = spoken_chunk ans @ takeWhile is_space ?rest @ py_lstrip ?rest" .
  moreover have "\<forall>c\<in>set (takeWhile is_space ?rest). is_space c"
    by (auto dest: set_takeWhileD)
  ultimately show ?thesis using rem_ne by blast
qed

lemma verifier_input:
  assumes "draft_answer st = Some d" "d = [] \<longrightarrow> answer st = None"
  shows "py_strip (or_else (draft_answer st) (or_else (answer st) [])) = py_strip d"
  using assms by (cases "d = []") (simp_all add: or_else_def)

lemma verifier_fits:
  assumes "length (py_strip (or_else (draft_answer st) (or_else (answer st) []))) \<le> SPOKEN_MAX_LEN"
  shows "verifier st = empty_state\<lparr>truncated := Some False, continuation := Some [],
           full_answer := Some None,
           answer := Some (py_strip (or_else (draft_answer st) (or_else (answer st) [])))\<rparr>"
  using assms by (auto simp: verifier_def Let_def)

lemma verifier_over:
  assumes "SPOKEN_MAX_LEN < length (py_strip (or_else (draft_answer st) (or_else (answer st) [])))"
  shows "verifier st =
           (let ans = py_strip (or_else (draft_answer st) (or_else (answer st) [])) in
            empty_state\<lparr>truncated := Some True,
              continuation := Some (py_lstrip (drop (length (spoken_chunk ans)) ans)),
              full_answer := Some (Some ans), answer := Some (spoken_chunk ans)\<rparr>)"
  using assms by (auto simp: verifier_def Let_def empty_state_def)

text \<open>
  Claim C8. A draft of at most 300 characters comes back stripped and is not marked as
  truncated. The verifier reads \<open>draft_answer\<close> first and falls back to \<open>answer\<close> when
  the draft is empty, so an empty draft is considered only in a state without that key.
\<close>

theorem verifier_short_draft:
  assumes "draft_answer st = Some d" and "length d \<le> 300"
    and "d = [] \<longrightarrow> answer st = None"
  shows "answer (verifier st) = Some (py_strip d) \<and> truncated (verifier st) = Some False"
proof -
  have inp: "py_strip (or_else (draft_answer st) (or_else (answer st) [])) = py_strip d"
    using assms(1,3) by (rule verifier_input)
  have "length (py_strip d) \<le> SPOKEN_MAX_LEN"
    using py_strip_length [of d] assms(2) by (simp add: SPOKEN_MAX_LEN_def)
  then show ?thesis
    using verifier_fits [of st] inp by (simp add: empty_state_def)
qed

theorem verifier_short_draft_witness:
  "answer (verifier (empty_state\<lparr>draft_answer := Some (asc '' The answer is 72. '')\<rparr>))
     = Some (asc ''The answer is 72.'')
   \<and> truncated (verifier (empty_state\<lparr>draft_answer := Some (asc '' The answer is 72. '')\<rparr>))
     = Some False"
  using verifier_short_draft [of "empty_state\<lparr>draft_answer := Some (asc '' The answer is 72. '')\<rparr>"
      "asc '' The answer is 72. ''"]
  by (simp add: empty_state_def asc_def py_strip_def py_lstrip_def py_rstrip_def is_space_def)

text \<open>
  Claim C3. The envelope the verifier produces for a draft: \<open>truncated\<close> is set, and it is
  true exactly when the continuation is non-empty and \<open>full_answer\<close> is the stripped draft;
  when it is false the continuation is empty and \<open>full_answer\<close> is \<open>None\<close>; when it is
  true, \<open>full_answer\<close> is the answer, then some whitespace, then the continuation.
\<close>

theorem verifier_envelope:
  assumes "draft_answer st = Some d" and "d = [] \<longrightarrow> answer st = None"
  shows "(truncated (verifier st) = Some True \<or> truncated (verifier st) = Some False)
    \<and> (truncated (verifier st) = Some True \<longleftrightarrow>
         (\<exists>c. continuation (verifier st) = Some c \<and> c \<noteq> [])
         \<and> full_answer (verifier st) = Some (Some (py_strip d)))
    \<and> (truncated (verifier st) = Some False \<longrightarrow>
         continuation (verifier st) = Some [] \<and> full_answer (verifier st) = Some None)
    \<and> (truncated (verifier st) = Some True \<longrightarrow>
         (\<exists>a c ws. answer (verifier st) = Some a \<and> continuation (verifier st) = Some c
            \<and> (\<forall>x\<in>set ws. is_space x)
            \<and> full_answer (verifier st) = Some (Some (a @ ws @ c))))"
proof -
  let ?ans = "py_strip d"
  have inp: "py_strip (or_else (draft_answer st) (or_else (answer st) [])) = ?ans"
    using assms by (rule verifier_input)
  show ?thesis
  proof (cases "length ?ans \<le> SPOKEN_MAX_LEN")
    case True
    then have "verifier st = empty_state\<lparr>truncated := Some False, continuation := Some [],
           full_answer := Some None, answer := Some ?ans\<rparr>"
      using verifier_fits [of st] inp by simp
    then show ?thesis by (simp add: empty_state_def)
  next
    case False
    then have long: "SPOKEN_MAX_LEN < length ?ans" by simp
    then have ne: "?ans \<noteq> []" by auto
    have v: "verifier st = empty_state\<lparr>truncated := Some True,
              continuation := Some (py_lstrip (drop (length (spoken_chunk ?ans)) ?ans)),
              full_answer := Some (Some ?ans), answer := Some (spoken_chunk ?ans)\<rparr>"
      using verifier_over [of st] long inp by (simp add: Let_def)
    obtain ws where ws: "\<forall>c\<in>set ws. is_space c"
      "?ans = spoken_chunk ?ans @ ws @ py_lstrip (drop (length (spoken_chunk ?ans)) ?ans)"
      "py_lstrip (drop (length (spoken_chunk ?ans)) ?ans) \<noteq> []"
      using spoken_chunk_split [OF ne py_strip_hd [OF ne] py_strip_last [OF ne] long]
      by blast
    have "\<exists>a c ws. answer (verifier st) = Some a \<and> continuation (verifier st) = Some c
            \<and> (\<forall>x\<in>set ws. is_space x)
            \<and> full_answer (verifier st) = Some (Some (a @ ws @ c))"
      using v ws(1,2) by (auto simp: empty_state_def)
    moreover have "truncated (verifier st) = Some True"
      "full_answer (verifier st) = Some (Some ?ans)"
      "\<exists>c. continuation (verifier st) = Some c \<and> c \<noteq> []"
      using v ws(3) by (simp_all add: empty_state_def)
    ultimately show ?thesis by simp
  qed
qed


lemma py_strip_id:
  assumes "xs \<noteq> []" "\<not> is_space (hd xs)" "\<not> is_space (last xs)"
  shows "py_strip xs = xs"
proof -
  have "rev xs \<noteq> []" "\<not> is_space (hd (rev xs))"
    using assms by (simp_all add: hd_rev)
  then have "dropWhile is_space (rev xs) = rev xs"
    by (cases "rev xs") auto
  then have "py_rstrip xs = xs" by (simp add: py_rstrip_def)
  then show ?thesis using py_strip_headed [OF assms(1,2)] by simp
qed

lemma verifier_truncated:
  "truncated (verifier st) =
     Some (SPOKEN_MAX_LEN < length (py_strip (or_else (draft_answer st) (or_else (answer st) []))))"
  by (auto simp: verifier_def Let_def empty_state_def)

theorem verifier_envelope_witness:
  "(\<exists>a c ws. answer (verifier (empty_state\<lparr>draft_answer := Some (replicate 301 97)\<rparr>)) = Some a
       \<and> continuation (verifier (empty_state\<lparr>draft_answer := Some (replicate 301 97)\<rparr>)) = Some c
       \<and> (\<forall>x\<in>set ws. is_space x)
       \<and> full_answer (verifier (empty_state\<lparr>draft_answer := Some (replicate 301 97)\<rparr>))
           = Some (Some (a @ ws @ c)))
   \<and> continuation (verifier (empty_state\<lparr>draft_answer := Some [97, 32]\<rparr>)) = Some []
   \<and> full_answer (verifier (empty_state\<lparr>draft_answer := Some [97, 32]\<rparr>)) = Some None"
proof -
  let ?long = "empty_state\<lparr>draft_answer := Some (replicate 301 97)\<rparr>"
  let ?short = "empty_state\<lparr>draft_answer := Some [97, 32]\<rparr>"
  have "py_strip (replicate 301 97) = replicate 301 97"
    by (rule py_strip_id) (simp_all add: is_space_def)
  then have "truncated (verifier ?long) = Some True"
    by (simp add: verifier_truncated or_else_def empty_state_def SPOKEN_MAX_LEN_def)
  moreover have "truncated (verifier ?short) = Some False"
    by (simp add: verifier_truncated or_else_def empty_state_def SPOKEN_MAX_LEN_def
        py_strip_def py_lstrip_def py_rstrip_def is_space_def)
  moreover have "draft_answer ?long = Some (replicate 301 97)"
    "replicate 301 97 = [] \<longrightarrow> answer ?long = None"
    "draft_answer ?short = Some [97, 32]" "[97, 32] = [] \<longrightarrow> answer ?short = None"
    by (simp_all add: empty_state_def)
  ultimately show ?thesis
    using verifier_envelope [of ?long "replicate 301 97"]
      verifier_envelope [of ?short "[97, 32]"]
    by blast
qed

section \<open>Properties of the calculator\<close>

lemmas text_evals = asc_def py_split_def is_space_def is_digit_def is_az_def is_word_def
  py_lower_def py_strip_def py_lstrip_def py_rstrip_def word_opt_def boundary_def head_opt_def
  match_here_def str_int_def digits_of.simps

lemmas calc_evals = ALLOWED_def WORD_OPERATORS_def NUM_WORDS_def SCALE_WORDS_def
  IGNORE_WORDS_def ALL_NUMBER_WORDS_def words_sequence_to_int_def flush_seq_def
  convert_number_words_def replace_word_operators_def

lemmas int_eval_evals = int_eval_def num_token_def op_token_def

lemma and_is_no_num_word: "map_of NUM_WORDS (asc ''and'') = None"
  by (simp add: NUM_WORDS_def asc_def)

lemma words_loop_num:
  assumes "map_of NUM_WORDS w = Some v"
  shows "words_loop t c (w # ws) = words_loop t (c + v) ws"
proof -
  have "w \<noteq> asc ''and''"
    using assms and_is_no_num_word by auto
  then show ?thesis
    using assms by (simp add: IGNORE_WORDS_def)
qed

text \<open>
  Claim C7, as amended. The loop of \<open>_words_sequence_to_int\<close> keeps two registers: a
  unit or tens word is added to \<open>current\<close>; a scale word multiplies \<open>current\<close>, an empty
  register (zero) counting as one, and a scale of at least 1000 then moves \<open>current\<close> into
  \<open>total\<close>; \<open>and\<close> changes nothing; the result is the sum of the registers.
  \<open>three hundred and five\<close> is converted to \<open>305\<close>.
\<close>

theorem number_words_accumulator:
  "(map_of NUM_WORDS w = Some v \<longrightarrow> words_loop t c (w # ws) = words_loop t (c + v) ws)
   \<and> words_loop t c (asc ''hundred'' # ws) = words_loop t ((if c = 0 then 1 else c) * 100) ws
   \<and> words_loop t c (asc ''thousand'' # ws)
       = words_loop (t + (if c = 0 then 1 else c) * 1000) 0 ws
   \<and> words_loop t c (asc ''million'' # ws)
       = words_loop (t + (if c = 0 then 1 else c) * 1000000) 0 ws
   \<and> words_loop t c (asc ''and'' # ws) = words_loop t c ws
   \<and> words_loop t c [] = Some (t + c)
   \<and> words_sequence_to_int (map asc [''three'', ''hundred'', ''and'', ''five'']) = Some 305
   \<and> convert_number_words (asc ''three hundred and five'') = asc ''305''"
proof -
  have "words_loop t c (asc ''hundred'' # ws) = words_loop t ((if c = 0 then 1 else c) * 100) ws"
    by (simp add: NUM_WORDS_def SCALE_WORDS_def IGNORE_WORDS_def asc_def)
  moreover have "words_loop t c (asc ''thousand'' # ws)
       = words_loop (t + (if c = 0 then 1 else c) * 1000) 0 ws"
    by (simp add: NUM_WORDS_def SCALE_WORDS_def IGNORE_WORDS_def asc_def)
  moreover have "words_loop t c (asc ''million'' # ws)
       = words_loop (t + (if c = 0 then 1 else c) * 1000000) 0 ws"
    by (simp add: NUM_WORDS_def SCALE_WORDS_def IGNORE_WORDS_def asc_def)
  moreover have "words_loop t c (asc ''and'' # ws) = words_loop t c ws"
    by (simp add: IGNORE_WORDS_def)
  moreover have "words_sequence_to_int (map asc [''three'', ''hundred'', ''and'', ''five''])
      = Some 305"
    by (simp add: text_evals calc_evals)
  moreover have "convert_number_words (asc ''three hundred and five'') = asc ''305''"
    by (simp add: text_evals calc_evals)
  ultimately show ?thesis
    using words_loop_num [of w v t c ws] by simp
qed

theorem number_words_accumulator_witness:
  "map_of NUM_WORDS (asc ''five'') = Some 5
   \<and> words_loop 0 300 [asc ''five''] = Some 305"
proof -
  have "map_of NUM_WORDS (asc ''five'') = Some 5"
    by (simp add: NUM_WORDS_def asc_def)
  then show ?thesis
    using number_words_accumulator [of "asc ''five''" 5 0 300 "[]"] by simp
qed

text \<open>
  Claim C7, as stated, fails where a scale word meets an empty register: the loop as the
  claim words it multiplies zero and gives 0, the code gives 100 for \<open>hundred\<close> and 1000
  for \<open>thousand\<close>.
\<close>

theorem number_words_accumulator_counterexample:
  "claimed_words_loop 0 0 [asc ''hundred''] = Some 0
   \<and> words_sequence_to_int [asc ''hundred''] = Some 100
   \<and> claimed_words_loop 0 0 [asc ''thousand''] = Some 0
   \<and> words_sequence_to_int [asc ''thousand''] = Some 1000
   \<and> convert_number_words (asc ''thousand'') = asc ''1000''"
  by (simp add: text_evals calc_evals)

text \<open>
  Claim C6, as amended. In \<open>calc("rm -rf /")\<close> the hyphen becomes a space and the letters
  are blanked before the character check, so the expression checked is \<open>/\<close>, which
  passes: the reply has status 400 and carries the text of the exception that the evaluator
  raises on \<open>/\<close>. The reply \<open>invalid characters\<close> with status 400 is given whenever the
  normalised expression is empty or keeps a character outside the allowed set.
\<close>

theorem calc_rm_rf:
  "replace_word_operators U (py_strip (asc ''rm -rf /'')) = asc ''/''
   \<and> (ev (asc ''/'') = Raises msg \<longrightarrow>
        calc U ev (asc ''rm -rf /'') = (no_keys\<lparr>error := Some msg\<rparr>, 400))
   \<and> (replace_word_operators U (py_strip e) = []
        \<or> \<not> list_all (\<lambda>c. c \<in> set ALLOWED) (replace_word_operators U (py_strip e)) \<longrightarrow>
        calc U ev e = (no_keys\<lparr>error := Some (asc ''invalid characters'')\<rparr>, 400))"
proof -
  have norm: "replace_word_operators U (py_strip (asc ''rm -rf /'')) = asc ''/''"
    by (simp add: text_evals calc_evals Let_def)
  have "list_all (\<lambda>c. c \<in> set ALLOWED) (asc ''/'')" "asc ''/'' \<noteq> []"
    by (simp_all add: ALLOWED_def asc_def)
  with norm have "ev (asc ''/'') = Raises msg \<Longrightarrow>
        calc U ev (asc ''rm -rf /'') = (no_keys\<lparr>error := Some msg\<rparr>, 400)"
    by (simp add: calc_def)
  moreover have "replace_word_operators U (py_strip e) = []
        \<or> \<not> list_all (\<lambda>c. c \<in> set ALLOWED) (replace_word_operators U (py_strip e)) \<Longrightarrow>
        calc U ev e = (no_keys\<lparr>error := Some (asc ''invalid characters'')\<rparr>, 400)"
    by (auto simp: calc_def Let_def)
  ultimately show ?thesis using norm by blast
qed

theorem calc_rm_rf_witness:
  "int_eval (asc ''/'') = Raises (asc ''invalid syntax (<string>, line 1)'')
   \<and> calc ascii_table int_eval (asc ''rm -rf /'')
       = (no_keys\<lparr>error := Some (asc ''invalid syntax (<string>, line 1)'')\<rparr>, 400)
   \<and> replace_word_operators ascii_table (py_strip (asc ''rm -rf'')) = []
   \<and> calc ascii_table int_eval (asc ''rm -rf'')
       = (no_keys\<lparr>error := Some (asc ''invalid characters'')\<rparr>, 400)"
proof -
  have "int_eval (asc ''/'') = Raises (asc ''invalid syntax (<string>, line 1)'')"
    by (simp add: int_eval_evals text_evals)
  moreover have "replace_word_operators ascii_table (py_strip (asc ''rm -rf'')) = []"
    by (simp add: text_evals calc_evals Let_def)
  ultimately show ?thesis
    using calc_rm_rf [of ascii_table int_eval "asc ''invalid syntax (<string>, line 1)''"
        "asc ''rm -rf''"]
    by blast
qed

text \<open>
  Claim C6, as stated, fails: with an evaluator that reports \<open>/\<close> as Python does, the reply
  to \<open>rm -rf /\<close> is not the \<open>invalid characters\<close> reply.
\<close>

theorem calc_rm_rf_counterexample:
  "calc ascii_table int_eval (asc ''rm -rf /'')
     \<noteq> (no_keys\<lparr>error := Some (asc ''invalid characters'')\<rparr>, 400)"
  by (simp add: calc_def text_evals calc_evals int_eval_evals Let_def no_keys_def)

section \<open>Properties of the router\<close>

lemmas route_evals = normalize_str_def NEGATIONS_def NOTE_TRIGGERS_def LIST_TRIGGERS_def
  CALC_TRIGGERS_def SEARCH_TRIGGERS_def number_here_def has_operator_def route_def
  re_search_words_def contains_phrase_def

text \<open>
  \<open>occurs_from\<close> holds of every text that splits into a part ending without a word
  character, the phrase, and a part starting without one.
\<close>

lemma occurs_from_decomposed:
  assumes "p \<noteq> []" "\<not> word_opt U (if pre = [] then prev else Some (last pre))"
    "\<not> word_opt U (head_opt post)"
  shows "occurs_from U p prev (pre @ p @ post)"
  using assms
proof (induction pre arbitrary: prev)
  case Nil
  then obtain c cs where "p = c # cs" by (cases p) auto
  with Nil show ?case by simp
next
  case (Cons x pre)
  have "\<not> word_opt U (if pre = [] then Some x else Some (last pre))"
    using Cons.prems(2) by (simp split: if_splits)
  from Cons.IH [OF Cons.prems(1) this Cons.prems(3)]
  show ?case by simp
qed

text \<open>
  For alternatives that start and end with a word character, the pattern finds exactly
  the whole-word occurrences.
\<close>

lemma match_alts_iff:
  "match_alts U alts rest \<noteq> None \<longleftrightarrow>
     (\<exists>a\<in>set alts. take (length a) rest = a
        \<and> boundary U (Some (last a)) (head_opt (drop (length a) rest)))"
  by (induction alts) auto

lemma wordy_match:
  assumes "a \<noteq> []" "is_word U (hd a)" "is_word U (last a)" "take (length a) (c # cs) = a"
  shows "boundary U prev (head_opt (c # cs)) \<and>
           boundary U (Some (last a)) (head_opt (drop (length a) (c # cs)))
         \<longleftrightarrow> \<not> word_opt U prev \<and> \<not> word_opt U (head_opt (drop (length a) (c # cs)))"
proof -
  have "hd a = c" using assms(1,4) by (cases a) auto
  then show ?thesis
    using assms(2,3) by (auto simp: boundary_def word_opt_def head_opt_def)
qed

lemma find_words_complete:
  assumes "a \<in> set alts" "a \<noteq> []" "is_word U (hd a)" "is_word U (last a)"
    "occurs_from U a prev s"
  shows "find_words U alts prev s \<noteq> None"
  using assms(5)
proof (induction s arbitrary: prev)
  case Nil
  then show ?case by simp
next
  case (Cons c cs)
  show ?case
  proof (cases "match_here U alts prev (c # cs)")
    case (Some b)
    then show ?thesis by simp
  next
    case None
    have "\<not> (\<not> word_opt U prev \<and> take (length a) (c # cs) = a
           \<and> \<not> word_opt U (head_opt (drop (length a) (c # cs))))"
    proof
      assume h: "\<not> word_opt U prev \<and> take (length a) (c # cs) = a
           \<and> \<not> word_opt U (head_opt (drop (length a) (c # cs)))"
      then have "boundary U prev (head_opt (c # cs))"
        "boundary U (Some (last a)) (head_opt (drop (length a) (c # cs)))"
        using wordy_match [OF assms(2,3,4), of c cs prev] by auto
      then have "match_alts U alts (c # cs) \<noteq> None" "boundary U prev (head_opt (c # cs))"
        using h assms(1) match_alts_iff [of U alts "c # cs"] by auto
      with None show False by (simp add: match_here_def)
    qed
    with Cons.prems have "occurs_from U a (Some c) cs" by simp
    from Cons.IH [OF this] None show ?thesis by simp
  qed
qed

lemma find_words_sound:
  assumes "\<forall>a\<in>set alts. a \<noteq> [] \<and> is_word U (hd a) \<and> is_word U (last a)"
    "find_words U alts prev s \<noteq> None"
  shows "\<exists>a\<in>set alts. occurs_from U a prev s"
  using assms(2)
proof (induction s arbitrary: prev)
  case Nil
  then show ?case by simp
next
  case (Cons c cs)
  show ?case
  proof (cases "match_here U alts prev (c # cs)")
    case (Some b)
    then have bnd: "boundary U prev (head_opt (c # cs))" and "match_alts U alts (c # cs) \<noteq> None"
      by (auto simp: match_here_def split: if_splits)
    then obtain a where a: "a \<in> set alts" "take (length a) (c # cs) = a"
      "boundary U (Some (last a)) (head_opt (drop (length a) (c # cs)))"
      using match_alts_iff [of U alts "c # cs"] by auto
    with assms(1) have "a \<noteq> []" "is_word U (hd a)" "is_word U (last a)" by auto
    from wordy_match [OF this a(2), of prev] bnd a(3)
    have "\<not> word_opt U prev \<and> \<not> word_opt U (head_opt (drop (length a) (c # cs)))" by simp
    with a(1,2) show ?thesis by auto
  next
    case None
    with Cons.prems have "find_words U alts (Some c) cs \<noteq> None" by auto
    from Cons.IH [OF this] show ?thesis by auto
  qed
qed


lemma negations_wordy:
  "\<forall>a\<in>set NEGATIONS. a \<noteq> [] \<and> is_word U (hd a) \<and> is_word U (last a)"
  by (simp add: NEGATIONS_def asc_def is_word_def is_digit_def is_az_def)

lemma negation_iff:
  "re_search_words U NEGATIONS t \<longleftrightarrow> list_ex (\<lambda>n. contains_phrase U n t) NEGATIONS"
proof
  assume "re_search_words U NEGATIONS t"
  then have "\<exists>a\<in>set NEGATIONS. occurs_from U a None t"
    using find_words_sound [OF negations_wordy] by (simp add: re_search_words_def)
  then show "list_ex (\<lambda>n. contains_phrase U n t) NEGATIONS"
    by (simp add: list_ex_iff contains_phrase_def)
next
  assume "list_ex (\<lambda>n. contains_phrase U n t) NEGATIONS"
  then obtain a where a: "a \<in> set NEGATIONS" "occurs_from U a None t"
    by (auto simp: list_ex_iff contains_phrase_def)
  with negations_wordy have "a \<noteq> []" "is_word U (hd a)" "is_word U (last a)" by auto
  from find_words_complete [OF a(1) this a(2)]
  show "re_search_words U NEGATIONS t" by (simp add: re_search_words_def)
qed

lemma note_trigger_found:
  assumes "p \<in> set (map asc [''add note'', ''add a note'', ''take a note'', ''remember to'',
             ''note to'', ''remind me to''])"
    and "contains_phrase U p t"
  shows "re_search_words U NOTE_TRIGGERS t"
proof -
  have "p \<in> set NOTE_TRIGGERS" "p \<noteq> []" "is_word U (hd p)" "is_word U (last p)"
    using assms(1) by (auto simp: NOTE_TRIGGERS_def asc_def is_word_def is_digit_def is_az_def)
  from find_words_complete [OF this] assms(2)
  show ?thesis by (simp add: re_search_words_def contains_phrase_def)
qed

text \<open>
  Claim C4, as amended. On a non-empty normalised transcript in which one of the phrases
  \<open>add note\<close>, \<open>add a note\<close>, \<open>take a note\<close>, \<open>remember to\<close>, \<open>note to\<close>, \<open>remind me to\<close>
  occurs as whole words, that is with no word character of the pattern class \<open>\w\<close>
  directly before or after it, and in which none of the negation markers \<open>don't\<close>,
  \<open>do not\<close>, \<open>do n't\<close>, \<open>never\<close>, \<open>no\<close> occurs as whole words, the router sets the intent
  \<open>NOTES\<close>; on one in which a negation marker occurs as whole words it sets \<open>ANSWER\<close>.
  This holds for every table of the Unicode classes.
\<close>

theorem router_note_triggers:
  assumes "normalize_str U (or_else (transcript st) []) = t" and "t \<noteq> []"
  shows "(p \<in> set (map asc [''add note'', ''add a note'', ''take a note'', ''remember to'',
               ''note to'', ''remind me to''])
          \<and> contains_phrase U p t \<and> \<not> list_ex (\<lambda>n. contains_phrase U n t) NEGATIONS
          \<longrightarrow> intent (router U st) = Some NOTES)
       \<and> (list_ex (\<lambda>n. contains_phrase U n t) NEGATIONS
          \<longrightarrow> intent (router U st) = Some ANSWER)"
proof -
  have r: "intent (router U st) = Some (route U t)"
    using assms(1) by (simp add: router_def empty_state_def)
  have "route U t = NOTES"
    if "p \<in> set (map asc [''add note'', ''add a note'', ''take a note'', ''remember to'',
               ''note to'', ''remind me to''])"
      "contains_phrase U p t" "\<not> list_ex (\<lambda>n. contains_phrase U n t) NEGATIONS"
    using note_trigger_found [OF that(1,2)] that(3) assms(2) negation_iff [of U t]
    by (simp add: route_def)
  moreover have "route U t = ANSWER" if "list_ex (\<lambda>n. contains_phrase U n t) NEGATIONS"
    using that negation_iff [of U t] by (simp add: route_def)
  ultimately show ?thesis using r by simp
qed

theorem router_note_triggers_witness:
  "intent (router ascii_table
      (empty_state\<lparr>transcript := Some (asc ''  Add a NOTE  call mom '')\<rparr>))
     = Some NOTES
   \<and> intent (router ascii_table (empty_state\<lparr>transcript := Some (asc ''Never add a note'')\<rparr>))
     = Some ANSWER"
proof -
  let ?s1 = "empty_state\<lparr>transcript := Some (asc ''  Add a NOTE  call mom '')\<rparr>"
  let ?t1 = "asc ''add a note call mom''"
  let ?s2 = "empty_state\<lparr>transcript := Some (asc ''Never add a note'')\<rparr>"
  let ?t2 = "asc ''never add a note''"
  have n1: "normalize_str ascii_table (or_else (transcript ?s1) []) = ?t1"
    and n2: "normalize_str ascii_table (or_else (transcript ?s2) []) = ?t2"
    by (simp_all add: empty_state_def or_else_def normalize_str_def text_evals)
  have ne: "?t1 \<noteq> []" "?t2 \<noteq> []" by (simp_all add: asc_def)
  have p1: "asc ''add a note'' \<in> set (map asc [''add note'', ''add a note'', ''take a note'',
      ''remember to'', ''note to'', ''remind me to''])"
    by simp
  have c1: "contains_phrase ascii_table (asc ''add a note'') ?t1"
    by (simp add: contains_phrase_def text_evals)
  have c2: "\<not> list_ex (\<lambda>n. contains_phrase ascii_table n ?t1) NEGATIONS"
    by (simp add: contains_phrase_def NEGATIONS_def text_evals)
  have c3: "list_ex (\<lambda>n. contains_phrase ascii_table n ?t2) NEGATIONS"
    by (simp add: contains_phrase_def NEGATIONS_def text_evals)
  show ?thesis
    using router_note_triggers [OF n1 ne(1), of "asc ''add a note''"]
      router_note_triggers [OF n2 ne(2), of "asc ''add a note''"] p1 c1 c2 c3
    by blast
qed

text \<open>
  Claim C4, as stated, fails on three normalised transcripts without any of the four
  negation markers it lists. \<open>add notes for me\<close> contains the trigger \<open>add note\<close>, but
  inside a longer word, where the \<open>\b\<close> of the pattern does not match. In
  \<open>do n't add a note\<close> the trigger \<open>add a note\<close> occurs as whole words, and the pattern
  of line 41 has \<open>do n't\<close> as a fifth marker. \<open>note: buy milk\<close> starts with the trigger
  \<open>note:\<close>, but the closing \<open>\b\<close> of the pattern asks for a word character right after
  the colon.
\<close>

theorem router_note_triggers_counterexample:
  "normalize_str ascii_table (asc ''add notes for me'') = asc ''add notes for me''
   \<and> take 8 (asc ''add notes for me'') = asc ''add note''
   \<and> \<not> list_ex (\<lambda>n. contains_phrase ascii_table n (asc ''add notes for me''))
         (map asc [''don't'', ''do not'', ''never'', ''no''])
   \<and> intent (router ascii_table (empty_state\<lparr>transcript := Some (asc ''add notes for me'')\<rparr>))
       = Some ANSWER
   \<and> normalize_str ascii_table (asc ''do n't add a note'') = asc ''do n't add a note''
   \<and> contains_phrase ascii_table (asc ''add a note'') (asc ''do n't add a note'')
   \<and> \<not> list_ex (\<lambda>n. contains_phrase ascii_table n (asc ''do n't add a note''))
         (map asc [''don't'', ''do not'', ''never'', ''no''])
   \<and> intent (router ascii_table (empty_state\<lparr>transcript := Some (asc ''do n't add a note'')\<rparr>))
       = Some ANSWER
   \<and> normalize_str ascii_table (asc ''note: buy milk'') = asc ''note: buy milk''
   \<and> take 5 (asc ''note: buy milk'') = asc ''note:''
   \<and> \<not> list_ex (\<lambda>n. contains_phrase ascii_table n (asc ''note: buy milk''))
         (map asc [''don't'', ''do not'', ''never'', ''no''])
   \<and> intent (router ascii_table (empty_state\<lparr>transcript := Some (asc ''note: buy milk'')\<rparr>))
       = Some ANSWER"
  by (simp add: router_def empty_state_def or_else_def route_evals text_evals)

section \<open>Properties of the graph\<close>

lemma triggered_steps:
  "triggered [detect_intent] = [dispatch_tool, compose_answer]"
  "triggered [dispatch_tool, compose_answer] = [compose_answer, verify_answer]"
  "triggered [compose_answer, verify_answer] = [verify_answer]"
  "triggered [verify_answer] = []"
  by (simp_all add: triggered_def edges_def nodes_def)

lemma apply_updates_empty [simp]: "apply_updates u empty_state = u"
  by (simp add: apply_updates_def write_key_def empty_state_def)

lemma conflict_empty [simp]: "\<not> conflict u empty_state"
  by (simp add: conflict_def keys_of_def empty_state_def)

text \<open>
  The run of the compiled graph, step by step: the router alone; the dispatcher together
  with a first run of the composer, both on the state the router left; the composer
  again, together with a first run of the verifier; the verifier again.
\<close>

lemma run_graph_steps:
  assumes s1: "s1 = apply_updates st (router U st)"
    and d: "tool_node U ev wiki s1 store = (d, store')"
    and a1: "answerer s1 = Some a1"
    and c2: "\<not> conflict d a1"
    and s2: "s2 = apply_updates s1 (apply_updates d a1)"
    and a2: "answerer s2 = Some a2"
    and c3: "\<not> conflict a2 (verifier s2)"
    and s3: "s3 = apply_updates s2 (apply_updates a2 (verifier s2))"
  shows "run_graph U ev wiki 25 [detect_intent] st store
           = Some (apply_updates s3 (verifier s3), store')"
proof -
  have "run_graph U ev wiki 25 [detect_intent] st store
          = run_graph U ev wiki 24 [dispatch_tool, compose_answer] s1 store"
    by (subst run_graph.simps) (simp add: run_node_def triggered_steps s1)
  also have "\<dots> = run_graph U ev wiki 23 [compose_answer, verify_answer] s2 store'"
    by (subst run_graph.simps) (simp add: run_node_def triggered_steps d a1 c2 s2)
  also have "\<dots> = run_graph U ev wiki 22 [verify_answer] s3 store'"
    by (subst run_graph.simps) (simp add: run_node_def triggered_steps a2 c3 s3)
  also have "\<dots> = run_graph U ev wiki 21 [] (apply_updates s3 (verifier s3)) store'"
    by (subst run_graph.simps) (simp add: run_node_def triggered_steps)
  also have "\<dots> = Some (apply_updates s3 (verifier s3), store')"
    by (subst run_graph.simps) simp
  finally show ?thesis .
qed


lemmas node_evals = empty_state_def no_keys_def or_else_def dict_or_empty_def
  list_or_empty_def str_val_def strip_qmarks_def strip_filler_def sub_words_first_def
  SEARCH_STRIP_def NOTE_STRIP_def FILLERS_def note_line_def snippet_line_def

lemma verifier_of_short_draft:
  assumes "draft_answer st = Some d" "d \<noteq> []" "py_strip d = d" "length d \<le> 300"
  shows "verifier st = empty_state\<lparr>truncated := Some False, continuation := Some [],
           full_answer := Some None, answer := Some d\<rparr>"
proof -
  have "py_strip (or_else (draft_answer st) (or_else (answer st) [])) = d"
    using assms(1,2,3) by (simp add: or_else_def)
  then show ?thesis
    using verifier_fits [of st] assms(4) by (simp add: SPOKEN_MAX_LEN_def)
qed

lemma tool_node_calc:
  assumes "intent st = Some CALC" and "normalize_str U (or_else (transcript st) []) = t"
    and "py_strip (sub_runs is_space [32] (strip_qmarks (sub_words_first U CALC_TRIGGERS [] t)))
           = e"
    and "e \<noteq> []" and "calc U ev e = (res, code)"
  shows "tool_node U ev wiki st store =
           (empty_state\<lparr>tool_result := Some (TDict res), calc_status := Some code\<rparr>, store)"
  using assms by (simp add: tool_node_def Let_def)

lemma calc_9_times_8:
  assumes "ev (asc ''9 * 8'') = Returns (PyInt 72)"
  shows "calc U ev (asc ''9 times 8'') = (no_keys\<lparr>result := Some (PyInt 72)\<rparr>, 200)"
proof -
  have "replace_word_operators U (py_strip (asc ''9 times 8'')) = asc ''9 * 8''"
    by (simp add: text_evals calc_evals Let_def)
  moreover have "asc ''9 * 8'' \<noteq> []" "list_all (\<lambda>c. c \<in> set ALLOWED) (asc ''9 * 8'')"
    by (simp_all add: asc_def ALLOWED_def)
  ultimately show ?thesis using assms by (simp add: calc_def)
qed

text \<open>
  Claim C2. On the transcript \<open>what is 9 times 8\<close>, with an evaluator that gives 72 for
  \<open>9 * 8\<close>, the run ends with the intent \<open>CALC\<close>, the result 72 with status 200, and the
  draft and the answer \<open>The answer is 72.\<close>
\<close>

theorem invoke_what_is_9_times_8:
  assumes "ev (asc ''9 * 8'') = Returns (PyInt 72)"
  shows "invoke U ev wiki (asc ''what is 9 times 8'') store =
     Some (\<lparr>transcript = Some (asc ''what is 9 times 8''), intent = Some CALC,
             tool_result = Some (TDict (no_keys\<lparr>result := Some (PyInt 72)\<rparr>)),
             draft_answer = Some (asc ''The answer is 72.''),
             answer = Some (asc ''The answer is 72.''), calc_status = Some 200,
             truncated = Some False, full_answer = Some None, continuation = Some []\<rparr>,
           store)"
proof -
  define T where "T = asc ''what is 9 times 8''"
  define fail where "fail = asc ''I couldn'' @ [8217] @ asc ''t work that out because ''
    @ asc ''invalid expression or unsupported characters'' @ asc ''.''"
  define st where "st = empty_state\<lparr>transcript := Some T\<rparr>"
  define s1 where "s1 = apply_updates st (router U st)"
  define d where "d = empty_state\<lparr>tool_result := Some (TDict (no_keys\<lparr>result := Some (PyInt 72)\<rparr>)),
      calc_status := Some 200\<rparr>"
  define a1 where "a1 = empty_state\<lparr>draft_answer := Some fail\<rparr>"
  define s2 where "s2 = apply_updates s1 (apply_updates d a1)"
  define a2 where "a2 = empty_state\<lparr>draft_answer := Some (asc ''The answer is 72.'')\<rparr>"
  define s3 where "s3 = apply_updates s2 (apply_updates a2 (verifier s2))"
  have norm: "normalize_str U T = T"
    by (simp add: T_def normalize_str_def text_evals)
  have "route U T = CALC"
    by (simp add: T_def route_evals text_evals)
  then have r: "router U st = empty_state\<lparr>intent := Some CALC\<rparr>"
    using norm by (simp add: router_def st_def or_else_def empty_state_def T_def asc_def)
  have s1_eq: "s1 = empty_state\<lparr>transcript := Some T, intent := Some CALC\<rparr>"
    unfolding s1_def r
    by (simp add: st_def apply_updates_def write_key_def empty_state_def)
  have expr: "py_strip (sub_runs is_space [32]
      (strip_qmarks (sub_words_first U CALC_TRIGGERS [] T))) = asc ''9 times 8''"
    by (simp add: T_def node_evals route_evals text_evals)
  have tn: "tool_node U ev wiki s1 store = (d, store)"
    unfolding d_def
  proof (rule tool_node_calc)
    show "intent s1 = Some CALC" by (simp add: s1_eq)
    show "normalize_str U (or_else (transcript s1) []) = T"
      using norm by (simp add: s1_eq or_else_def T_def asc_def)
    show "py_strip (sub_runs is_space [32]
      (strip_qmarks (sub_words_first U CALC_TRIGGERS [] T))) = asc ''9 times 8''"
      by (rule expr)
    show "asc ''9 times 8'' \<noteq> []" by (simp add: asc_def)
    show "calc U ev (asc ''9 times 8'') = (no_keys\<lparr>result := Some (PyInt 72)\<rparr>, 200)"
      using assms by (rule calc_9_times_8)
  qed
  have an1: "answerer s1 = Some a1"
    by (simp add: answerer_def s1_eq a1_def fail_def node_evals)
  have c2: "\<not> conflict d a1"
    by (simp add: conflict_def keys_of_def d_def a1_def empty_state_def)
  have s2_eq: "s2 = \<lparr>transcript = Some T, intent = Some CALC,
      tool_result = Some (TDict (no_keys\<lparr>result := Some (PyInt 72)\<rparr>)),
      draft_answer = Some fail, answer = None, calc_status = Some 200, truncated = None,
      full_answer = None, continuation = None\<rparr>"
    by (simp add: s2_def s1_eq d_def a1_def apply_updates_def write_key_def empty_state_def)
  have an2: "answerer s2 = Some a2"
    by (simp add: answerer_def s2_eq a2_def node_evals text_evals)
  have v2: "verifier s2 = empty_state\<lparr>truncated := Some False, continuation := Some [],
           full_answer := Some None, answer := Some fail\<rparr>"
    by (rule verifier_of_short_draft) (simp_all add: s2_eq fail_def text_evals)
  have c3: "\<not> conflict a2 (verifier s2)"
    by (simp add: v2 conflict_def keys_of_def a2_def empty_state_def)
  have s3_eq: "s3 = \<lparr>transcript = Some T, intent = Some CALC,
      tool_result = Some (TDict (no_keys\<lparr>result := Some (PyInt 72)\<rparr>)),
      draft_answer = Some (asc ''The answer is 72.''), answer = Some fail,
      calc_status = Some 200, truncated = Some False, full_answer = Some None,
      continuation = Some []\<rparr>"
    unfolding s3_def v2
    by (simp add: s2_eq a2_def apply_updates_def write_key_def empty_state_def)
  have v3: "verifier s3 = empty_state\<lparr>truncated := Some False, continuation := Some [],
           full_answer := Some None, answer := Some (asc ''The answer is 72.'')\<rparr>"
    by (rule verifier_of_short_draft) (simp_all add: s3_eq text_evals)
  have fin: "apply_updates s3 (verifier s3) =
      \<lparr>transcript = Some T, intent = Some CALC,
       tool_result = Some (TDict (no_keys\<lparr>result := Some (PyInt 72)\<rparr>)),
       draft_answer = Some (asc ''The answer is 72.''),
       answer = Some (asc ''The answer is 72.''), calc_status = Some 200,
       truncated = Some False, full_answer = Some None, continuation = Some []\<rparr>"
    unfolding v3
    by (simp add: s3_eq apply_updates_def write_key_def empty_state_def)
  have "run_graph U ev wiki 25 [detect_intent] st store
           = Some (apply_updates s3 (verifier s3), store)"
    using s1_def tn an1 c2 s2_def an2 c3 s3_def by (rule run_graph_steps)
  moreover have "invoke U ev wiki T store = run_graph U ev wiki 25 [detect_intent] st store"
    by (simp add: invoke_def entry_point_def st_def)
  ultimately show ?thesis
    using fin by (simp add: T_def)
qed


theorem invoke_what_is_9_times_8_witness:
  "int_eval (asc ''9 * 8'') = Returns (PyInt 72)
   \<and> map_option (\<lambda>r. (intent (fst r), answer (fst r)))
        (invoke ascii_table int_eval (\<lambda>q. []) (asc ''what is 9 times 8'') [])
       = Some (Some CALC, Some (asc ''The answer is 72.''))"
proof -
  have h: "int_eval (asc ''9 * 8'') = Returns (PyInt 72)"
    by (simp add: int_eval_evals text_evals)
  show ?thesis
    using invoke_what_is_9_times_8 [of int_eval ascii_table "\<lambda>q. []" "[]"] h by simp
qed

lemma tool_node_list:
  assumes "intent st = Some NOTES_LIST"
  shows "tool_node U ev wiki st store =
           (empty_state\<lparr>tool_result := Some (TDict (list_notes store))\<rparr>, store)"
  using assms by (simp add: tool_node_def Let_def)

lemma run_list_notes_empty:
  "invoke U ev wiki (asc ''list notes'') [] =
     Some (\<lparr>transcript = Some (asc ''list notes''), intent = Some NOTES_LIST,
             tool_result = Some (TDict (list_notes [])),
             draft_answer = Some (asc ''You don'' @ [8217]
                @ asc ''t have any notes yet. Just ask me to remember something.''),
             answer = Some (asc ''You don'' @ [8217]
                @ asc ''t have any notes yet. Just ask me to remember something.''),
             calc_status = None, truncated = Some False, full_answer = Some None,
             continuation = Some []\<rparr>, [])"
proof -
  define no_notes_yet where "no_notes_yet =
    asc ''You don'' @ [8217] @ asc ''t have any notes yet. Just ask me to remember something.''"
  define T where "T = asc ''list notes''"
  define st where "st = empty_state\<lparr>transcript := Some T\<rparr>"
  define s1 where "s1 = apply_updates st (router U st)"
  define d where "d = empty_state\<lparr>tool_result := Some (TDict (list_notes []))\<rparr>"
  define a where "a = empty_state\<lparr>draft_answer := Some no_notes_yet\<rparr>"
  define s2 where "s2 = apply_updates s1 (apply_updates d a)"
  define s3 where "s3 = apply_updates s2 (apply_updates a (verifier s2))"
  have norm: "normalize_str U T = T"
    by (simp add: T_def normalize_str_def text_evals)
  have "route U T = NOTES_LIST"
    by (simp add: T_def route_evals text_evals)
  then have r: "router U st = empty_state\<lparr>intent := Some NOTES_LIST\<rparr>"
    using norm by (simp add: router_def st_def or_else_def empty_state_def T_def asc_def)
  have s1_eq: "s1 = empty_state\<lparr>transcript := Some T, intent := Some NOTES_LIST\<rparr>"
    unfolding s1_def r
    by (simp add: st_def apply_updates_def write_key_def empty_state_def)
  have tn: "tool_node U ev wiki s1 [] = (d, [])"
    unfolding d_def by (rule tool_node_list) (simp add: s1_eq)
  have an1: "answerer s1 = Some a"
    by (simp add: answerer_def s1_eq a_def no_notes_yet_def node_evals)
  have c2: "\<not> conflict d a"
    by (simp add: conflict_def keys_of_def d_def a_def empty_state_def)
  have s2_eq: "s2 = \<lparr>transcript = Some T, intent = Some NOTES_LIST,
      tool_result = Some (TDict (list_notes [])),
      draft_answer = Some no_notes_yet, answer = None, calc_status = None, truncated = None,
      full_answer = None, continuation = None\<rparr>"
    by (simp add: s2_def s1_eq d_def a_def apply_updates_def write_key_def empty_state_def)
  have an2: "answerer s2 = Some a"
    by (simp add: answerer_def s2_eq a_def no_notes_yet_def node_evals list_notes_def)
  have fits: "no_notes_yet \<noteq> []" "py_strip no_notes_yet = no_notes_yet"
    "length no_notes_yet \<le> 300"
    by (simp_all add: no_notes_yet_def text_evals)
  have v2: "verifier s2 = empty_state\<lparr>truncated := Some False, continuation := Some [],
           full_answer := Some None, answer := Some no_notes_yet\<rparr>"
    using _ fits by (rule verifier_of_short_draft) (simp add: s2_eq)
  have c3: "\<not> conflict a (verifier s2)"
    by (simp add: v2 conflict_def keys_of_def a_def empty_state_def)
  have s3_eq: "s3 = \<lparr>transcript = Some T, intent = Some NOTES_LIST,
      tool_result = Some (TDict (list_notes [])),
      draft_answer = Some no_notes_yet, answer = Some no_notes_yet,
      calc_status = None, truncated = Some False, full_answer = Some None,
      continuation = Some []\<rparr>"
    unfolding s3_def v2
    by (simp add: s2_eq a_def apply_updates_def write_key_def empty_state_def)
  have v3: "verifier s3 = empty_state\<lparr>truncated := Some False, continuation := Some [],
           full_answer := Some None, answer := Some no_notes_yet\<rparr>"
    using _ fits by (rule verifier_of_short_draft) (simp add: s3_eq)
  have fin: "apply_updates s3 (verifier s3) = s3"
    unfolding v3
    by (simp add: s3_eq apply_updates_def write_key_def empty_state_def)
  have "run_graph U ev wiki 25 [detect_intent] st []
           = Some (apply_updates s3 (verifier s3), [])"
    using s1_def tn an1 c2 s2_def an2 c3 s3_def by (rule run_graph_steps)
  moreover have "invoke U ev wiki T [] = run_graph U ev wiki 25 [detect_intent] st []"
    by (simp add: invoke_def entry_point_def st_def)
  ultimately show ?thesis
    using fin s3_eq by (simp add: T_def no_notes_yet_def)
qed

text \<open>
  Claim C9, as amended. On the transcript \<open>list notes\<close> with an empty note store, the
  draft and the answer are the text \<open>You don't have any notes yet. Just ask me to remember
  something.\<close> written with the typographic apostrophe U+2019 in \<open>don't\<close>, as the source
  has it.
\<close>

theorem invoke_list_notes_empty:
  "map_option (\<lambda>r. (intent (fst r), draft_answer (fst r), answer (fst r)))
     (invoke U ev wiki (asc ''list notes'') [])
   = Some (Some NOTES_LIST,
       Some (asc ''You don'' @ [8217]
              @ asc ''t have any notes yet. Just ask me to remember something.''),
       Some (asc ''You don'' @ [8217]
              @ asc ''t have any notes yet. Just ask me to remember something.''))"
  by (simp add: run_list_notes_empty)

text \<open>
  Claim C9, as stated, fails: the answer is not the text with the ASCII apostrophe.
\<close>

theorem invoke_list_notes_empty_counterexample:
  "map_option (\<lambda>r. answer (fst r))
     (invoke ascii_table int_eval (\<lambda>q. []) (asc ''list notes'') [])
     \<noteq> Some (Some (asc ''You don't have any notes yet. Just ask me to remember something.''))"
  using run_list_notes_empty [of ascii_table int_eval "\<lambda>q. []"] by (simp add: asc_def)


text \<open>
  Claim C10. For a text that is empty once stripped, \<open>add_note\<close> replies \<open>ok\<close> true with
  the unchanged count and leaves the store as it was; the store never replies \<open>ok\<close>
  false. The reply with \<open>ok\<close> false and count 0 comes from the dispatcher, which does not
  call the store when the payload left of the transcript is empty.
\<close>

theorem add_note_blank:
  "(py_strip text = [] \<longrightarrow>
      add_note text store
        = (no_keys\<lparr>ok := Some True, count := Some (int (length store))\<rparr>, store))
   \<and> ok (fst (add_note text store)) = Some True
   \<and> (intent st = Some NOTES
        \<and> py_strip (sub_runs is_space [32]
             (sub_words_first U NOTE_STRIP [] (normalize_str U (or_else (transcript st) [])))) = []
      \<longrightarrow> tool_node U ev wiki st store
            = (empty_state\<lparr>tool_result :=
                 Some (TDict (no_keys\<lparr>ok := Some False, count := Some 0\<rparr>))\<rparr>, store))"
  by (simp add: add_note_def tool_node_def Let_def no_keys_def)

theorem add_note_blank_witness:
  "add_note [32, 9] [asc ''call mom'']
     = (no_keys\<lparr>ok := Some True, count := Some 1\<rparr>, [asc ''call mom''])
   \<and> tool_node ascii_table int_eval (\<lambda>q. [])
        (empty_state\<lparr>transcript := Some (asc ''Add a note ''), intent := Some NOTES\<rparr>)
        [asc ''call mom'']
     = (empty_state\<lparr>tool_result :=
          Some (TDict (no_keys\<lparr>ok := Some False, count := Some 0\<rparr>))\<rparr>, [asc ''call mom''])"
proof -
  let ?st = "empty_state\<lparr>transcript := Some (asc ''Add a note ''), intent := Some NOTES\<rparr>"
  have "py_strip [32, 9] = []"
    by (simp add: text_evals)
  moreover have "intent ?st = Some NOTES"
    by (simp add: empty_state_def)
  moreover have "py_strip (sub_runs is_space [32]
      (sub_words_first ascii_table NOTE_STRIP []
        (normalize_str ascii_table (or_else (transcript ?st) [])))) = []"
    by (simp add: empty_state_def or_else_def normalize_str_def sub_words_first_def
        NOTE_STRIP_def text_evals)
  ultimately show ?thesis
    using add_note_blank [of "[32, 9]" "[asc ''call mom'']" ?st ascii_table int_eval "\<lambda>q. []"]
    by simp
qed

text \<open>
  Claim C1 against the code. The graph has an edge from the router to the composer next
  to the edge from the router to the dispatcher, so the second step of every run holds the
  dispatcher and the composer together, and the composer and the verifier run twice. On
  \<open>what is 9 times 8\<close> the composer's first run reads the state the router left, without
  a tool result, and drafts the sentence of failure.
\<close>

theorem build_graph_schedule:
  "(detect_intent, Some compose_answer) \<in> set edges
   \<and> supersteps 25 [entry_point]
       = Some [[detect_intent], [dispatch_tool, compose_answer],
               [compose_answer, verify_answer], [verify_answer]]
   \<and> answerer (apply_updates (empty_state\<lparr>transcript := Some (asc ''what is 9 times 8'')\<rparr>)
        (router U (empty_state\<lparr>transcript := Some (asc ''what is 9 times 8'')\<rparr>)))
       = Some (empty_state\<lparr>draft_answer := Some (asc ''I couldn'' @ [8217]
           @ asc ''t work that out because invalid expression or unsupported characters.'')\<rparr>)"
proof -
  have "supersteps 25 [entry_point]
       = Some [[detect_intent], [dispatch_tool, compose_answer],
               [compose_answer, verify_answer], [verify_answer]]"
    by (simp add: supersteps.simps entry_point_def triggered_steps)
  moreover have "route U (normalize_str U (asc ''what is 9 times 8'')) = CALC"
    by (simp add: route_evals text_evals)
  then have "router U (empty_state\<lparr>transcript := Some (asc ''what is 9 times 8'')\<rparr>)
      = empty_state\<lparr>intent := Some CALC\<rparr>"
    by (simp add: router_def or_else_def empty_state_def asc_def)
  then have "answerer (apply_updates (empty_state\<lparr>transcript := Some (asc ''what is 9 times 8'')\<rparr>)
        (router U (empty_state\<lparr>transcript := Some (asc ''what is 9 times 8'')\<rparr>)))
       = Some (empty_state\<lparr>draft_answer := Some (asc ''I couldn'' @ [8217]
           @ asc ''t work that out because invalid expression or unsupported characters.'')\<rparr>)"
    by (simp add: answerer_def apply_updates_def write_key_def node_evals asc_def)
  ultimately show ?thesis
    by (simp add: edges_def)
qed

end
